theory Spec2Isabelle
  imports Main "HOL-Library.Word"
begin

unbundle bit_operations_syntax

section \<open>The SDL2 display of UltraGrid (video_display/sdl2.cpp)\<close>

text \<open>
  The theory embeds the functions of \<^verbatim>\<open>video_display/sdl2.cpp\<close>: the frame pool
  (\<^verbatim>\<open>cleanup_frames\<close>, \<^verbatim>\<open>recreate_textures\<close>), the producer calls
  (\<^verbatim>\<open>display_sdl2_getf\<close>, \<^verbatim>\<open>display_sdl2_putf\<close>, \<^verbatim>\<open>display_sdl2_reconfigure\<close>),
  the render thread (\<^verbatim>\<open>display_frame\<close>, \<^verbatim>\<open>display_sdl2_reconfigure_real\<close>, the loop of
  \<^verbatim>\<open>display_sdl2_run\<close>), the keyboard handling (\<^verbatim>\<open>translate_sdl_key_to_ug\<close>,
  \<^verbatim>\<open>display_sdl2_process_key\<close>) and the options of \<^verbatim>\<open>display_sdl2_init\<close>.

  Pointers to video frames are addresses (\<open>nat\<close>), a pointer that may be \<^verbatim>\<open>NULL\<close> is a
  \<open>nat option\<close>, and the frames they point to live in a heap. Pixel data is not
  modelled: rendering a texture and deinterlacing a frame in place leave the modelled
  state as it is.
\<close>

subsection \<open>Constants of headers that are not part of the files at hand\<close>

text \<open>
  \<^verbatim>\<open>TRUE\<close> and \<^verbatim>\<open>FALSE\<close> (config headers), \<^verbatim>\<open>PUTF_DISCARD\<close> and \<^verbatim>\<open>PUTF_BLOCKING\<close>
  (video_display.h) and the \<^verbatim>\<open>K_*\<close> key codes (keyboard_control.h) are macros whose
  definitions are not in the source files. They are parameters of the functions that use
  them; \<open>ug_headers_std\<close> is one instantiation, used where a concrete run is evaluated.
\<close>

record ug_headers =
  TRUE :: int
  FALSE :: int
  PUTF_DISCARD :: int
  PUTF_BLOCKING :: int
  K_RIGHT :: int
  K_LEFT :: int
  K_DOWN :: int
  K_UP :: int
  K_PGDOWN :: int
  K_PGUP :: int
  K_CTRL :: "int \<Rightarrow> int"

definition ug_headers_std :: ug_headers where
  "ug_headers_std =
     \<lparr>TRUE = 1, FALSE = 0, PUTF_DISCARD = - 1, PUTF_BLOCKING = 9223372036854775807,
      K_RIGHT = 1792835, K_LEFT = 1792836, K_DOWN = 1792834, K_UP = 1792833,
      K_PGDOWN = 458962558, K_PGUP = 458962302,
      K_CTRL = (\<lambda>k. 1 + (if 65 \<le> k \<and> k \<le> 90 then k - 65 + 97 else k) - 97)\<rparr>"

definition BUFFER_COUNT :: nat where
  "BUFFER_COUNT = 2"

subsection \<open>Constants of the SDL2 headers\<close>

definition KMOD_SHIFT :: "16 word" where "KMOD_SHIFT = 0x0003"
definition KMOD_CTRL :: "16 word" where "KMOD_CTRL = 0x00C0"
definition KMOD_NUM :: "16 word" where "KMOD_NUM = 0x1000"
definition KMOD_CAPS :: "16 word" where "KMOD_CAPS = 0x2000"

definition SDLK_SCANCODE_MASK :: "32 word" where "SDLK_SCANCODE_MASK = 0x40000000"
definition SDLK_LCTRL :: "32 word" where "SDLK_LCTRL = 0x400000E0"
definition SDLK_RCTRL :: "32 word" where "SDLK_RCTRL = 0x400000E4"
definition SDLK_RIGHT :: "32 word" where "SDLK_RIGHT = 0x4000004F"
definition SDLK_LEFT :: "32 word" where "SDLK_LEFT = 0x40000050"
definition SDLK_DOWN :: "32 word" where "SDLK_DOWN = 0x40000051"
definition SDLK_UP :: "32 word" where "SDLK_UP = 0x40000052"
definition SDLK_PAGEUP :: "32 word" where "SDLK_PAGEUP = 0x4000004B"
definition SDLK_PAGEDOWN :: "32 word" where "SDLK_PAGEDOWN = 0x4000004E"

definition SDL_WINDOW_RESIZABLE :: "32 word" where "SDL_WINDOW_RESIZABLE = 0x00000020"
definition SDL_WINDOW_ALLOW_HIGHDPI :: "32 word" where "SDL_WINDOW_ALLOW_HIGHDPI = 0x00002000"
definition SDL_WINDOW_FULLSCREEN_DESKTOP :: "32 word" where
  "SDL_WINDOW_FULLSCREEN_DESKTOP = 0x00001001"

definition SDL_RENDERER_ACCELERATED :: "32 word" where "SDL_RENDERER_ACCELERATED = 0x00000002"
definition SDL_RENDERER_PRESENTVSYNC :: "32 word" where "SDL_RENDERER_PRESENTVSYNC = 0x00000004"

definition SDL_WINDOWPOS_UNDEFINED :: int where "SDL_WINDOWPOS_UNDEFINED = 0x1FFF0000"

definition SDL_WINDOWPOS_CENTERED_DISPLAY :: "int \<Rightarrow> int" where
  "SDL_WINDOWPOS_CENTERED_DISPLAY d = 0x2FFF0000 OR d"

subsection \<open>Data\<close>

datatype codec_t = I420 | UYVY | YUYV | RGB | BGR | RGBA | R10k | OTHER_CODEC nat

datatype sdl_pixelformat =
    SDL_PIXELFORMAT_UNKNOWN
  | SDL_PIXELFORMAT_IYUV
  | SDL_PIXELFORMAT_UYVY
  | SDL_PIXELFORMAT_YUY2
  | SDL_PIXELFORMAT_RGB24
  | SDL_PIXELFORMAT_BGR24
  | SDL_PIXELFORMAT_RGBA32
  | SDL_PIXELFORMAT_ARGB2101010

datatype interlacing_t =
    PROGRESSIVE | UPPER_FIELD_FIRST | LOWER_FIELD_FIRST | INTERLACED_MERGED | SEGMENTED_FRAME

text \<open>\<^verbatim>\<open>struct video_desc\<close>, without its frame rate (a double).\<close>

record video_desc =
  width :: nat
  height :: nat
  color_spec :: codec_t
  interlacing :: interlacing_t
  tile_count :: nat

text \<open>A streaming texture, as the arguments \<^verbatim>\<open>SDL_CreateTexture\<close> made it from.\<close>

record sdl_texture =
  tex_format :: sdl_pixelformat
  tex_w :: int
  tex_h :: int

text \<open>
  \<^verbatim>\<open>struct video_frame\<close>: the descriptor it was allocated for (\<open>tile_width\<close> and
  \<open>tile_height\<close> are \<^verbatim>\<open>tiles[0].width\<close> and \<^verbatim>\<open>tiles[0].height\<close>) and the texture in
  \<^verbatim>\<open>callbacks.dispose_udata\<close>.
\<close>

record video_frame =
  frame_color_spec :: codec_t
  frame_interlacing :: interlacing_t
  tile_width :: nat
  tile_height :: nat
  dispose_udata :: "sdl_texture option"

text \<open>A window and a renderer, as the arguments of their creation calls.\<close>

record sdl_window =
  win_title :: string
  win_pos_x :: int
  win_pos_y :: int
  win_w :: int
  win_h :: int
  win_flags :: "32 word"

record sdl_renderer =
  rend_index :: int
  rend_flags :: "32 word"
  logical_w :: int
  logical_h :: int

record SDL_Keysym =
  keysym_sym :: "32 word"
  keysym_mod :: "16 word"

datatype window_event_id =
    SDL_WINDOWEVENT_EXPOSED
  | SDL_WINDOWEVENT_RESIZED
  | SDL_WINDOWEVENT_SIZE_CHANGED
  | SDL_WINDOWEVENT_OTHER

text \<open>
  The events the loop of \<^verbatim>\<open>display_sdl2_run\<close> tells apart. A reconfigure event carries
  the descriptor its \<^verbatim>\<open>data1\<close> points to, a new-frame event the frame pointer.
\<close>

datatype sdl_event =
    sdl_user_reconfigure_event video_desc
  | sdl_user_new_frame_event "nat option"
  | sdl_user_new_message_event
  | SDL_KEYDOWN SDL_Keysym
  | SDL_WINDOWEVENT window_event_id int int
  | SDL_QUIT
  | SDL_OTHER_EVENT

datatype deint = deint_off | deint_on | deint_force

datatype response_status = RESPONSE_OK | RESPONSE_BAD_REQUEST

type_synonym response = "response_status \<times> string option"

text \<open>
  \<^verbatim>\<open>struct state_sdl2\<close> (without the mutex, the condition variables and the three
  registered event numbers), followed by the parts of the process its functions act on:
  \<^item> \<open>should_exit_sdl\<close>, the local variable of \<^verbatim>\<open>display_sdl2_run\<close>;
  \<^item> \<open>frames\<close>, the heap of allocated video frames, and \<open>next_frame\<close>, the address the
    next allocation returns (addresses are not reused);
  \<^item> \<open>sdl_events\<close>, the SDL event queue, oldest event first;
  \<^item> \<open>sdl_results\<close>, what the coming calls of \<^verbatim>\<open>SDL_CreateWindow\<close>,
    \<^verbatim>\<open>SDL_CreateRenderer\<close> and \<^verbatim>\<open>SDL_CreateTexture\<close> will answer, in call order
    (\<open>True\<close>: an object, \<open>False\<close>: \<^verbatim>\<open>NULL\<close>; an exhausted list answers with an object);
  \<^item> \<open>sdl_pitch\<close>, the pitch \<^verbatim>\<open>SDL_LockTexture\<close> reports;
  \<^item> \<open>window_title_param\<close>, the value of \<^verbatim>\<open>get_commandline_param("window-title")\<close>;
  \<^item> \<open>messages\<close>, the texts \<^verbatim>\<open>check_message\<close> will return, \<open>responses\<close>, the
    responses given by \<^verbatim>\<open>free_message\<close>, \<open>sent_keys\<close>, the keys passed to
    \<^verbatim>\<open>keycontrol_send_key\<close>, and \<open>exit_requested\<close>, set by \<^verbatim>\<open>exit_uv\<close>.
\<close>

record state_sdl2 =
  texture_pitch :: int
  display_idx :: int
  win_x :: int
  win_y :: int
  renderer_idx :: int
  window :: "sdl_window option"
  renderer :: "sdl_renderer option"
  fs :: bool
  deinterlace :: deint
  keep_aspect :: bool
  vsync :: bool
  fixed_size :: bool
  fixed_w :: int
  fixed_h :: int
  window_flags :: "32 word"
  reconfiguration_status :: int
  current_display_desc :: video_desc
  last_frame :: "nat option"
  free_frame_queue :: "nat list"
  should_exit_sdl :: bool
  frames :: "nat \<Rightarrow> video_frame option"
  next_frame :: nat
  sdl_events :: "sdl_event list"
  sdl_results :: "bool list"
  sdl_pitch :: int
  window_title_param :: "string option"
  messages :: "string list"
  responses :: "response list"
  sent_keys :: "int list"
  exit_requested :: bool

text \<open>How a call that cannot return ends: it waits for ever, or an assertion aborts.\<close>

datatype stop = Blocked | Assertion_failed

subsection \<open>Pixel formats\<close>

definition pf_mapping :: "(codec_t \<times> sdl_pixelformat) list" where
  "pf_mapping =
     [(I420, SDL_PIXELFORMAT_IYUV),
      (UYVY, SDL_PIXELFORMAT_UYVY),
      (YUYV, SDL_PIXELFORMAT_YUY2),
      (RGB, SDL_PIXELFORMAT_RGB24),
      (BGR, SDL_PIXELFORMAT_BGR24),
      (RGBA, SDL_PIXELFORMAT_RGBA32)]"

definition get_ug_to_sdl_format :: "codec_t \<Rightarrow> sdl_pixelformat" where
  "get_ug_to_sdl_format ug_codec =
     (if ug_codec = R10k then SDL_PIXELFORMAT_ARGB2101010
      else case find (\<lambda>u. fst u = ug_codec) pf_mapping of
             None \<Rightarrow> SDL_PIXELFORMAT_UNKNOWN
           | Some it \<Rightarrow> snd it)"

subsection \<open>Displaying a frame\<close>

text \<open>
  \<^verbatim>\<open>display_frame\<close>: nothing for \<^verbatim>\<open>NULL\<close>; the frame is rendered (no modelled effect);
  a frame that is \<open>last_frame\<close> is a redraw and the function returns; any other frame
  is pushed onto the free queue and becomes \<open>last_frame\<close>.
\<close>

definition display_frame :: "state_sdl2 \<Rightarrow> nat option \<Rightarrow> state_sdl2" where
  "display_frame s frame =
     (case frame of
        None \<Rightarrow> s
      | Some f \<Rightarrow>
          if frame = last_frame s then s
          else s\<lparr>free_frame_queue := free_frame_queue s @ [f], last_frame := Some f\<rparr>)"

subsection \<open>Keys\<close>

text \<open>
  \<^verbatim>\<open>toupper\<close> in the C locale, on a key code: a lower-case letter becomes the
  upper-case one, every other code is returned as it is.
\<close>

definition toupper :: "32 word \<Rightarrow> 32 word" where
  "toupper k = (if 0x61 \<le> k \<and> k \<le> 0x7A then k - 0x20 else k)"

definition translate_sdl_key_to_ug :: "ug_headers \<Rightarrow> SDL_Keysym \<Rightarrow> int" where
  "translate_sdl_key_to_ug c sym0 =
     (let m1 = keysym_mod sym0 AND NOT (KMOD_NUM OR KMOD_CAPS) in
      if keysym_sym sym0 = SDLK_LCTRL \<or> keysym_sym sym0 = SDLK_RCTRL then 0
      else
        let ctrl = (m1 AND KMOD_CTRL \<noteq> 0);
            m2 = m1 AND NOT KMOD_CTRL;
            shift = (m2 AND KMOD_SHIFT \<noteq> 0);
            m3 = m2 AND NOT KMOD_SHIFT
        in
          if m3 \<noteq> 0 then - 1
          else if keysym_sym sym0 AND SDLK_SCANCODE_MASK = 0 then
            (let k = (if shift then toupper (keysym_sym sym0) else keysym_sym sym0)
             in if ctrl then K_CTRL c (sint k) else sint k)
          else if keysym_sym sym0 = SDLK_RIGHT then K_RIGHT c
          else if keysym_sym sym0 = SDLK_LEFT then K_LEFT c
          else if keysym_sym sym0 = SDLK_DOWN then K_DOWN c
          else if keysym_sym sym0 = SDLK_UP then K_UP c
          else if keysym_sym sym0 = SDLK_PAGEDOWN then K_PGDOWN c
          else if keysym_sym sym0 = SDLK_PAGEUP then K_PGUP c
          else - 1)"

text \<open>
  \<^verbatim>\<open>display_sdl2_process_key\<close>: \<open>100\<close>, \<open>102\<close> and \<open>113\<close> are \<^verbatim>\<open>'d'\<close>, \<^verbatim>\<open>'f'\<close> and
  \<^verbatim>\<open>'q'\<close>. The result is the returned flag and the state.
\<close>

definition display_sdl2_process_key :: "state_sdl2 \<Rightarrow> int \<Rightarrow> bool \<times> state_sdl2" where
  "display_sdl2_process_key s key =
     (if key = 100 then
        (True, s\<lparr>deinterlace := (if deinterlace s = deint_off then deint_on else deint_off)\<rparr>)
      else if key = 102 then (True, s\<lparr>fs := \<not> fs s\<rparr>)
      else if key = 113 then (True, s\<lparr>exit_requested := True\<rparr>)
      else (False, s))"

subsection \<open>The frame pool\<close>

text \<open>
  The answer of the next SDL creation call: the head of \<open>sdl_results\<close>, which the call
  consumes.
\<close>

definition sdl_create :: "state_sdl2 \<Rightarrow> bool \<times> state_sdl2" where
  "sdl_create s =
     (case sdl_results s of
        [] \<Rightarrow> (True, s)
      | b # bs \<Rightarrow> (b, s\<lparr>sdl_results := bs\<rparr>))"

text \<open>
  Modelled from the spec: \<^verbatim>\<open>vf_alloc_desc\<close> (video_frame.c is not among the source
  files) allocates a buffer "sized/formatted per descriptor": the frame has the
  descriptor's pixel format and interlacing, and its tile the descriptor's width and height.
\<close>

definition vf_alloc_desc :: "video_desc \<Rightarrow> video_frame" where
  "vf_alloc_desc desc =
     \<lparr>frame_color_spec = color_spec desc, frame_interlacing = interlacing desc,
      tile_width = width desc, tile_height = height desc, dispose_udata = None\<rparr>"

text \<open>
  The loop of \<^verbatim>\<open>cleanup_frames\<close>: every buffer of the free queue is popped, its texture
  destroyed and the buffer freed.
\<close>

fun free_buffers :: "nat list \<Rightarrow> (nat \<Rightarrow> video_frame option) \<Rightarrow> (nat \<Rightarrow> video_frame option)" where
  "free_buffers [] h = h"
| "free_buffers (buffer # q) h = free_buffers q (h(buffer := None))"

definition cleanup_frames :: "state_sdl2 \<Rightarrow> state_sdl2" where
  "cleanup_frames s =
     s\<lparr>last_frame := None,
       frames := free_buffers (free_frame_queue s) (frames s),
       free_frame_queue := []\<rparr>"

text \<open>
  The body of the loop of \<^verbatim>\<open>recreate_textures\<close> once the texture is there: the frame
  is allocated for the descriptor at a fresh address, gets the texture (of the format, the
  width and the height \<^verbatim>\<open>SDL_CreateTexture\<close> was called with), the texture is locked,
  which sets \<open>texture_pitch\<close>, and the frame is pushed onto the free queue.
\<close>

definition push_new_buffer :: "video_desc \<Rightarrow> state_sdl2 \<Rightarrow> state_sdl2" where
  "push_new_buffer desc s =
     s\<lparr>frames := (frames s)(next_frame s \<mapsto>
          (vf_alloc_desc desc)\<lparr>dispose_udata :=
             Some \<lparr>tex_format = get_ug_to_sdl_format (color_spec desc),
                   tex_w = int (width desc), tex_h = int (height desc)\<rparr>\<rparr>),
       next_frame := Suc (next_frame s),
       texture_pitch := sdl_pitch s,
       free_frame_queue := free_frame_queue s @ [next_frame s]\<rparr>"

text \<open>
  The loop of \<^verbatim>\<open>recreate_textures\<close>, by the number of iterations left: a texture that
  cannot be created ends the function with \<open>False\<close>, the buffers pushed so far staying
  in the queue.
\<close>

fun create_buffers :: "nat \<Rightarrow> video_desc \<Rightarrow> state_sdl2 \<Rightarrow> bool \<times> state_sdl2" where
  "create_buffers 0 desc s = (True, s)"
| "create_buffers (Suc n) desc s =
     (case sdl_create s of
        (False, s1) \<Rightarrow> (False, s1)
      | (True, s1) \<Rightarrow> create_buffers n desc (push_new_buffer desc s1))"

definition recreate_textures :: "state_sdl2 \<Rightarrow> video_desc \<Rightarrow> bool \<times> state_sdl2" where
  "recreate_textures s desc = create_buffers BUFFER_COUNT desc (cleanup_frames s)"

subsection \<open>Reconfiguration on the render thread\<close>

definition SDL_RenderSetLogicalSize :: "state_sdl2 \<Rightarrow> int \<Rightarrow> int \<Rightarrow> state_sdl2" where
  "SDL_RenderSetLogicalSize s w h =
     s\<lparr>renderer := map_option (\<lambda>r. r\<lparr>logical_w := w, logical_h := h\<rparr>) (renderer s)\<rparr>"

text \<open>
  The window \<^verbatim>\<open>SDL_CreateWindow\<close> is asked for (title, position, size and flags as
  \<^verbatim>\<open>display_sdl2_reconfigure_real\<close> computes them), and the renderer
  \<^verbatim>\<open>SDL_CreateRenderer\<close> is asked for, with the logical size set right after.
\<close>

definition new_window :: "state_sdl2 \<Rightarrow> video_desc \<Rightarrow> sdl_window" where
  "new_window s desc =
     (let flags0 = window_flags s OR SDL_WINDOW_RESIZABLE OR SDL_WINDOW_ALLOW_HIGHDPI;
          flags = (if fs s then flags0 OR SDL_WINDOW_FULLSCREEN_DESKTOP else flags0);
          window_title = (case window_title_param s of
                            None \<Rightarrow> ''UltraGrid - SDL2 Display''
                          | Some t \<Rightarrow> t);
          w = (if fixed_w s \<noteq> 0 then fixed_w s else int (width desc));
          h = (if fixed_h s \<noteq> 0 then fixed_h s else int (height desc));
          x = (if win_x s = SDL_WINDOWPOS_UNDEFINED
               then SDL_WINDOWPOS_CENTERED_DISPLAY (display_idx s) else win_x s);
          y = (if win_y s = SDL_WINDOWPOS_UNDEFINED
               then SDL_WINDOWPOS_CENTERED_DISPLAY (display_idx s) else win_y s)
      in \<lparr>win_title = window_title, win_pos_x = x, win_pos_y = y, win_w = w, win_h = h,
          win_flags = flags\<rparr>)"

definition new_renderer :: "state_sdl2 \<Rightarrow> video_desc \<Rightarrow> sdl_renderer" where
  "new_renderer s desc =
     \<lparr>rend_index = renderer_idx s,
      rend_flags = SDL_RENDERER_ACCELERATED OR
        (if vsync s then SDL_RENDERER_PRESENTVSYNC else 0),
      logical_w = int (width desc), logical_h = int (height desc)\<rparr>"

text \<open>
  \<^verbatim>\<open>display_sdl2_reconfigure_real\<close>. With a fixed size and a window, the function
  returns the \<^verbatim>\<open>bool\<close> of \<^verbatim>\<open>recreate_textures\<close> converted to \<^verbatim>\<open>int\<close>; everywhere else
  it returns \<^verbatim>\<open>TRUE\<close> or \<^verbatim>\<open>FALSE\<close>. A window or a renderer that exists is destroyed
  before the new one is created, and the field holds what the creation call returned.
\<close>

definition display_sdl2_reconfigure_real ::
  "ug_headers \<Rightarrow> state_sdl2 \<Rightarrow> video_desc \<Rightarrow> int \<times> state_sdl2" where
  "display_sdl2_reconfigure_real c s desc =
     (if fixed_size s \<and> window s \<noteq> None then
        (case recreate_textures
                (SDL_RenderSetLogicalSize s (int (width desc)) (int (height desc))) desc of
           (ok, s1) \<Rightarrow> (if ok then 1 else 0, s1))
      else
        case sdl_create s of
          (False, s1) \<Rightarrow> (FALSE c, s1\<lparr>window := None\<rparr>)
        | (True, s1) \<Rightarrow>
            (case sdl_create (s1\<lparr>window := Some (new_window s1 desc)\<rparr>) of
               (False, s2) \<Rightarrow> (FALSE c, s2\<lparr>renderer := None\<rparr>)
             | (True, s2) \<Rightarrow>
                 (case recreate_textures (s2\<lparr>renderer := Some (new_renderer s2 desc)\<rparr>) desc of
                    (False, s3) \<Rightarrow> (FALSE c, s3)
                  | (True, s3) \<Rightarrow> (TRUE c, s3\<lparr>current_display_desc := desc\<rparr>))))"

subsection \<open>The producer's calls\<close>

text \<open>
  A call that waits on a condition variable gives the lock up while it waits, and does
  nothing before the wait that changes the state. It is therefore evaluated in the state
  in which its wait ends: \<^verbatim>\<open>wait(lk, pred)\<close> ends only where \<open>pred\<close> holds, and the call is
  \<open>Blocked\<close> in every other state; \<^verbatim>\<open>wait_for(lk, t, pred)\<close> ends where \<open>pred\<close> holds or,
  the time being up, where it does not.
\<close>

definition display_sdl2_getf :: "state_sdl2 \<Rightarrow> stop + (nat \<times> state_sdl2)" where
  "display_sdl2_getf s =
     (case free_frame_queue s of
        [] \<Rightarrow> Inl Blocked
      | buffer # q \<Rightarrow> Inr (buffer, s\<lparr>free_frame_queue := q\<rparr>))"

definition display_sdl2_putf ::
  "ug_headers \<Rightarrow> state_sdl2 \<Rightarrow> nat option \<Rightarrow> int \<Rightarrow> stop + (int \<times> state_sdl2)" where
  "display_sdl2_putf c s frame timeout_ns =
     (if timeout_ns = PUTF_DISCARD c then
        (case frame of
           None \<Rightarrow> Inl Assertion_failed
         | Some f \<Rightarrow> Inr (0, s\<lparr>free_frame_queue := free_frame_queue s @ [f]\<rparr>))
      else if frame \<noteq> None \<and> timeout_ns > 0 \<and> timeout_ns = PUTF_BLOCKING c
              \<and> free_frame_queue s = [] then Inl Blocked
      else
        (case frame of
           Some f \<Rightarrow>
             if free_frame_queue s = [] then
               Inr (1, s\<lparr>free_frame_queue := free_frame_queue s @ [f]\<rparr>)
             else Inr (0, s\<lparr>sdl_events := sdl_events s @ [sdl_user_new_frame_event frame]\<rparr>)
         | None \<Rightarrow>
             Inr (0, s\<lparr>sdl_events := sdl_events s @ [sdl_user_new_frame_event frame]\<rparr>)))"

text \<open>
  The wait of \<^verbatim>\<open>display_sdl2_putf\<close> in time. \<open>putf_wait\<close> is the wait lines 703 to 709
  perform: none, \<^verbatim>\<open>wait(lk, pred)\<close>, or \<^verbatim>\<open>wait_for(lk, timeout_ns * 1ns, pred)\<close>, whose
  relative time is kept in nanoseconds. While the call waits it holds no lock and changes
  nothing; \<open>world t\<close> is the state the other threads have brought about \<open>t\<close> nanoseconds
  after the call took the lock. \<open>wait_ends k world t\<close> says that the wait can end at
  \<open>t\<close>: at once when the predicate (a free buffer) holds on entry; otherwise at a later
  time at which it holds, and for \<^verbatim>\<open>wait_for\<close> no later than the relative time, at which
  the wait ends whether the predicate holds or not. \<open>putf_returns\<close> says that the call
  returns \<open>res\<close> when its wait ends at \<open>t\<close>.
\<close>

datatype wait_kind = No_wait | Wait | Wait_for int

definition putf_wait :: "ug_headers \<Rightarrow> nat option \<Rightarrow> int \<Rightarrow> wait_kind" where
  "putf_wait c frame timeout_ns =
     (if timeout_ns = PUTF_DISCARD c then No_wait
      else if frame \<noteq> None \<and> timeout_ns > 0 then
        (if timeout_ns = PUTF_BLOCKING c then Wait else Wait_for (timeout_ns * 1))
      else No_wait)"

definition wait_ends :: "wait_kind \<Rightarrow> (int \<Rightarrow> state_sdl2) \<Rightarrow> int \<Rightarrow> bool" where
  "wait_ends k world t =
     (case k of
        No_wait \<Rightarrow> t = 0
      | Wait \<Rightarrow>
          if free_frame_queue (world 0) \<noteq> [] then t = 0
          else 0 < t \<and> free_frame_queue (world t) \<noteq> []
      | Wait_for rel_time \<Rightarrow>
          if free_frame_queue (world 0) \<noteq> [] then t = 0
          else 0 < t \<and> t \<le> rel_time \<and> (free_frame_queue (world t) \<noteq> [] \<or> t = rel_time))"

definition putf_returns ::
  "ug_headers \<Rightarrow> (int \<Rightarrow> state_sdl2) \<Rightarrow> nat option \<Rightarrow> int \<Rightarrow> int \<Rightarrow> int \<times> state_sdl2 \<Rightarrow> bool" where
  "putf_returns c world frame timeout_ns t res =
     (wait_ends (putf_wait c frame timeout_ns) world t
      \<and> display_sdl2_putf c (world t) frame timeout_ns = Inr res)"

subsection \<open>Control messages\<close>

definition isspace :: "char \<Rightarrow> bool" where
  "isspace ch = ((of_char ch :: nat) = 32 \<or> (9 \<le> (of_char ch :: nat) \<and> (of_char ch :: nat) \<le> 13))"

definition isdigit :: "char \<Rightarrow> bool" where
  "isdigit ch = (48 \<le> (of_char ch :: nat) \<and> (of_char ch :: nat) \<le> 57)"

text \<open>
  \<^verbatim>\<open>sscanf(text, "%d", &key) == 1\<close>: white space is skipped, a sign may follow, and at
  least one decimal digit must; the digits are read as far as they go. The result is the
  number stored in \<open>key\<close> (numbers that do not fit an \<^verbatim>\<open>int\<close> are outside the model).
\<close>

definition sscanf_d :: "string \<Rightarrow> int option" where
  "sscanf_d text =
     (let t = dropWhile isspace text;
          negative = (t \<noteq> [] \<and> hd t = CHR ''-'');
          t1 = (if t \<noteq> [] \<and> (hd t = CHR ''-'' \<or> hd t = CHR ''+'') then tl t else t);
          ds = takeWhile isdigit t1;
          v = foldl (\<lambda>a d. 10 * a + (int (of_char d) - 48)) 0 ds
      in if ds = [] then None else Some (if negative then - v else v))"

text \<open>
  The body of the message loop of \<^verbatim>\<open>display_sdl2_run\<close>, for one message text:
  \<^verbatim>\<open>strstr(text, "win-title ") == text\<close> says that the text starts with the word.
\<close>

definition process_message :: "state_sdl2 \<Rightarrow> string \<Rightarrow> state_sdl2" where
  "process_message s text =
     (if take (length ''win-title '') text = ''win-title '' then
        s\<lparr>window := map_option (\<lambda>w. w\<lparr>win_title := drop (length ''win-title '') text\<rparr>)
                      (window s),
          responses := responses s @ [(RESPONSE_OK, None)]\<rparr>
      else
        case sscanf_d text of
          Some key \<Rightarrow>
            (case display_sdl2_process_key s key of
               (False, s1) \<Rightarrow>
                 s1\<lparr>responses := responses s1 @
                      [(RESPONSE_BAD_REQUEST, Some ''Unsupported key for SDL'')]\<rparr>
             | (True, s1) \<Rightarrow> s1\<lparr>responses := responses s1 @ [(RESPONSE_OK, None)]\<rparr>)
        | None \<Rightarrow>
            s\<lparr>responses := responses s @ [(RESPONSE_BAD_REQUEST, Some ''Wrong command'')]\<rparr>)"

text \<open>\<^verbatim>\<open>while ((msg = check_message(&s->mod)))\<close>: every pending message, in order.\<close>

fun process_messages :: "string list \<Rightarrow> state_sdl2 \<Rightarrow> state_sdl2" where
  "process_messages [] s = s"
| "process_messages (text # ms) s = process_messages ms (process_message s text)"

subsection \<open>The render loop\<close>

text \<open>
  One iteration of the loop of \<^verbatim>\<open>display_sdl2_run\<close>, for the event \<^verbatim>\<open>SDL_WaitEvent\<close>
  returned. The window size that a resize with \<open>keep_aspect\<close> sets is computed in
  floating point and is not part of the model.
\<close>

definition handle_event :: "ug_headers \<Rightarrow> sdl_event \<Rightarrow> state_sdl2 \<Rightarrow> state_sdl2" where
  "handle_event c ev s =
     (case ev of
        sdl_user_reconfigure_event desc \<Rightarrow>
          (case display_sdl2_reconfigure_real c s desc of
             (status, s1) \<Rightarrow> s1\<lparr>reconfiguration_status := status\<rparr>)
      | sdl_user_new_frame_event frame \<Rightarrow>
          (if frame \<noteq> None then display_frame s frame else s\<lparr>should_exit_sdl := True\<rparr>)
      | sdl_user_new_message_event \<Rightarrow>
          (process_messages (messages s) s)\<lparr>messages := []\<rparr>
      | SDL_KEYDOWN keysym \<Rightarrow>
          (let sym = translate_sdl_key_to_ug c keysym in
           if sym > 0 then
             (case display_sdl2_process_key s sym of
                (False, s1) \<Rightarrow> s1\<lparr>sent_keys := sent_keys s1 @ [sym]\<rparr>
              | (True, s1) \<Rightarrow> s1)
           else s)
      | SDL_WINDOWEVENT wev data1 data2 \<Rightarrow>
          (if wev = SDL_WINDOWEVENT_EXPOSED \<or> wev = SDL_WINDOWEVENT_SIZE_CHANGED then
             display_frame (display_frame s (last_frame s)) (last_frame s)
           else s)
      | SDL_QUIT \<Rightarrow> s\<lparr>exit_requested := True\<rparr>
      | SDL_OTHER_EVENT \<Rightarrow> s)"

text \<open>
  The loop itself: it ends when \<open>should_exit_sdl\<close> is set; with an empty queue
  \<^verbatim>\<open>SDL_WaitEvent\<close> waits, and the state returned is the one the loop waits in.
\<close>

function event_loop :: "ug_headers \<Rightarrow> state_sdl2 \<Rightarrow> state_sdl2" where
  "event_loop c s =
     (if should_exit_sdl s then s
      else case sdl_events s of
             [] \<Rightarrow> s
           | ev # evs \<Rightarrow> event_loop c (handle_event c ev (s\<lparr>sdl_events := evs\<rparr>)))"
  by pat_completeness auto

text \<open>
  \<^verbatim>\<open>loadSplashscreen\<close>, for the descriptor of the splash screen, and
  \<^verbatim>\<open>display_sdl2_run\<close>: the splash screen, then the loop.
\<close>

definition loadSplashscreen :: "ug_headers \<Rightarrow> state_sdl2 \<Rightarrow> video_desc \<Rightarrow> stop + state_sdl2" where
  "loadSplashscreen c s splash_desc =
     (case display_sdl2_reconfigure_real c s splash_desc of
        (status, s1) \<Rightarrow>
          (case display_sdl2_getf s1 of
             Inl e \<Rightarrow> Inl e
           | Inr (splash, s2) \<Rightarrow> Inr (display_frame s2 (Some splash))))"

definition display_sdl2_run :: "ug_headers \<Rightarrow> state_sdl2 \<Rightarrow> video_desc \<Rightarrow> stop + state_sdl2" where
  "display_sdl2_run c s splash_desc =
     (case loadSplashscreen c (s\<lparr>should_exit_sdl := False\<rparr>) splash_desc of
        Inl e \<Rightarrow> Inl e
      | Inr s1 \<Rightarrow> Inr (event_loop c s1))"

subsection \<open>The reconfiguration handshake\<close>

text \<open>
  \<^verbatim>\<open>display_sdl2_reconfigure\<close> in its two halves: up to the wait, the requester pushes
  the event and sets the status to \<open>- 1\<close>; the wait ends in a state whose status is not
  negative, and the call returns that status. \<open>display_sdl2_reconfigure\<close> is the whole
  call, the render thread running its loop on the queue while the requester waits.
\<close>

definition reconfigure_request :: "state_sdl2 \<Rightarrow> video_desc \<Rightarrow> state_sdl2" where
  "reconfigure_request s desc =
     s\<lparr>sdl_events := sdl_events s @ [sdl_user_reconfigure_event desc],
       reconfiguration_status := - 1\<rparr>"

definition reconfigure_return :: "state_sdl2 \<Rightarrow> stop + int" where
  "reconfigure_return s =
     (if reconfiguration_status s \<ge> 0 then Inr (reconfiguration_status s) else Inl Blocked)"

definition display_sdl2_reconfigure ::
  "ug_headers \<Rightarrow> state_sdl2 \<Rightarrow> video_desc \<Rightarrow> stop + (int \<times> state_sdl2)" where
  "display_sdl2_reconfigure c s desc =
     (let s1 = event_loop c (reconfigure_request s desc) in
      case reconfigure_return s1 of
        Inl e \<Rightarrow> Inl e
      | Inr status \<Rightarrow> Inr (status, s1))"

subsection \<open>Producer and render thread, interleaved\<close>

text \<open>
  A system state is the display's state together with the buffers the producer holds
  (acquired and not yet submitted). An action is one call of the producer or one
  iteration of the render loop; an action that cannot take place in a state (the call
  would wait, the producer does not hold the buffer, the loop has ended or has no event)
  has no successor.
\<close>

datatype action = Acquire | Submit "nat option" int | Render

type_synonym system = "state_sdl2 \<times> nat list"

definition step :: "ug_headers \<Rightarrow> action \<Rightarrow> system \<Rightarrow> system option" where
  "step c a sys =
     (case sys of (s, held) \<Rightarrow>
        (case a of
           Acquire \<Rightarrow>
             (case display_sdl2_getf s of
                Inl e \<Rightarrow> None
              | Inr (buffer, s1) \<Rightarrow> Some (s1, held @ [buffer]))
         | Submit frame timeout_ns \<Rightarrow>
             (case frame of
                None \<Rightarrow>
                  (case display_sdl2_putf c s None timeout_ns of
                     Inl e \<Rightarrow> None
                   | Inr (r, s1) \<Rightarrow> Some (s1, held))
              | Some f \<Rightarrow>
                  if f \<in> set held then
                    (case display_sdl2_putf c s (Some f) timeout_ns of
                       Inl e \<Rightarrow> None
                     | Inr (r, s1) \<Rightarrow> Some (s1, remove1 f held))
                  else None)
         | Render \<Rightarrow>
             (if should_exit_sdl s then None
              else case sdl_events s of
                     [] \<Rightarrow> None
                   | ev # evs \<Rightarrow> Some (handle_event c ev (s\<lparr>sdl_events := evs\<rparr>), held))))"

fun run_actions :: "ug_headers \<Rightarrow> action list \<Rightarrow> system \<Rightarrow> system option" where
  "run_actions c [] sys = Some sys"
| "run_actions c (a # as) sys =
     (case step c a sys of None \<Rightarrow> None | Some sys1 \<Rightarrow> run_actions c as sys1)"

text \<open>
  The buffers in flight: those the producer holds and those of the new-frame events
  still queued for the render thread. \<open>free_count\<close> is the length of the free queue.
\<close>

fun frame_of_event :: "sdl_event \<Rightarrow> nat option" where
  "frame_of_event (sdl_user_new_frame_event frame) = frame"
| "frame_of_event ev = None"

definition in_flight_count :: "system \<Rightarrow> nat" where
  "in_flight_count sys =
     length (snd sys) + length (filter (\<lambda>ev. frame_of_event ev \<noteq> None) (sdl_events (fst sys)))"

definition free_count :: "system \<Rightarrow> nat" where
  "free_count sys = length (free_frame_queue (fst sys))"

text \<open>
  The state \<^verbatim>\<open>display_sdl2_init\<close> returns for an empty option string (the default
  member initialisers of \<^verbatim>\<open>struct state_sdl2\<close>), in a process with empty queues.
\<close>

definition init_state :: state_sdl2 where
  "init_state =
     \<lparr>texture_pitch = 0, display_idx = 0, win_x = SDL_WINDOWPOS_UNDEFINED,
      win_y = SDL_WINDOWPOS_UNDEFINED, renderer_idx = - 1, window = None, renderer = None,
      fs = False, deinterlace = deint_off, keep_aspect = False, vsync = True,
      fixed_size = False, fixed_w = 0, fixed_h = 0, window_flags = 0,
      reconfiguration_status = 0,
      current_display_desc = \<lparr>width = 0, height = 0, color_spec = OTHER_CODEC 0,
                               interlacing = PROGRESSIVE, tile_count = 0\<rparr>,
      last_frame = None, free_frame_queue = [], should_exit_sdl = False,
      frames = (\<lambda>p. None), next_frame = 0, sdl_events = [], sdl_results = [],
      sdl_pitch = 0, window_title_param = None, messages = [], responses = [],
      sent_keys = [], exit_requested = False\<rparr>"

subsection \<open>Initialisation\<close>

text \<open>
  \<^verbatim>\<open>new state_sdl2{parent}\<close> in a process \<open>p\<close>: the default member initialisers;
  \<open>texture_pitch\<close> and \<open>reconfiguration_status\<close> have none.
\<close>

definition SDL_WINDOW_BORDERLESS :: "32 word" where "SDL_WINDOW_BORDERLESS = 0x00000010"

datatype init_result = Init_NULL | INIT_NOERR | Init_state state_sdl2

definition state_sdl2_new :: "state_sdl2 \<Rightarrow> state_sdl2" where
  "state_sdl2_new p =
     p\<lparr>display_idx := 0, win_x := SDL_WINDOWPOS_UNDEFINED, win_y := SDL_WINDOWPOS_UNDEFINED,
       renderer_idx := - 1, window := None, renderer := None, fs := False,
       deinterlace := deint_off, keep_aspect := False, vsync := True, fixed_size := False,
       fixed_w := 0, fixed_h := 0, window_flags := 0,
       current_display_desc := \<lparr>width = 0, height = 0, color_spec = OTHER_CODEC 0,
                                 interlacing = PROGRESSIVE, tile_count = 0\<rparr>,
       last_frame := None, free_frame_queue := []\<rparr>"

text \<open>
  The tokens \<^verbatim>\<open>strtok_r(tmp, ":", &save_ptr)\<close> returns one after the other: the
  non-empty pieces between colons (\<open>tok\<close> is the piece being read).
\<close>

fun strtok_colon :: "string \<Rightarrow> string \<Rightarrow> string list" where
  "strtok_colon tok [] = (if tok = [] then [] else [tok])"
| "strtok_colon tok (ch # rest) =
     (if ch = CHR '':'' then (if tok = [] then strtok_colon [] rest else tok # strtok_colon [] rest)
      else strtok_colon (tok @ [ch]) rest)"

text \<open>
  \<^verbatim>\<open>strncmp(tok, pre, strlen(pre)) == 0\<close> and \<^verbatim>\<open>strstr(tok, pre) == tok\<close>; \<^verbatim>\<open>atoi\<close>;
  the string behind the first \<open>ch\<close> (\<^verbatim>\<open>strchr(str, ch) + 1\<close>); and
  \<^verbatim>\<open>sscanf(str, "%i", &f) == 1\<close>, which reads a hexadecimal number after \<^verbatim>\<open>0x\<close>, an
  octal one after \<^verbatim>\<open>0\<close> and a decimal one otherwise (numbers that do not fit an
  \<^verbatim>\<open>int\<close>, and \<^verbatim>\<open>0x\<close> with no digit behind it, are outside the model).
\<close>

definition starts_with :: "string \<Rightarrow> string \<Rightarrow> bool" where
  "starts_with tok pre = (take (length pre) tok = pre)"

definition atoi :: "string \<Rightarrow> int" where
  "atoi str = (case sscanf_d str of None \<Rightarrow> 0 | Some v \<Rightarrow> v)"

definition after_char :: "char \<Rightarrow> string \<Rightarrow> string" where
  "after_char ch str = tl (dropWhile (\<lambda>x. x \<noteq> ch) str)"

definition digit_val :: "char \<Rightarrow> nat" where
  "digit_val ch =
     (let n = (of_char ch :: nat) in
      if 48 \<le> n \<and> n \<le> 57 then n - 48
      else if 97 \<le> n \<and> n \<le> 102 then n - 87
      else if 65 \<le> n \<and> n \<le> 70 then n - 55
      else 16)"

definition read_base :: "nat \<Rightarrow> string \<Rightarrow> int option" where
  "read_base b str =
     (let ds = takeWhile (\<lambda>ch. digit_val ch < b) str
      in if ds = [] then None
         else Some (foldl (\<lambda>a d. int b * a + int (digit_val d)) 0 ds))"

definition sscanf_i :: "string \<Rightarrow> int option" where
  "sscanf_i text =
     (let t = dropWhile isspace text;
          negative = (t \<noteq> [] \<and> hd t = CHR ''-'');
          t1 = (if t \<noteq> [] \<and> (hd t = CHR ''-'' \<or> hd t = CHR ''+'') then tl t else t);
          v = (if (starts_with t1 ''0x'' \<or> starts_with t1 ''0X'')
                  \<and> read_base 16 (drop 2 t1) \<noteq> None
               then read_base 16 (drop 2 t1)
               else if starts_with t1 ''0'' then read_base 8 t1
               else read_base 10 t1)
      in map_option (\<lambda>n. if negative then - n else n) v)"

text \<open>
  The body of the option loop of \<^verbatim>\<open>display_sdl2_init\<close> for one token: the state to go on
  with, or what the function returns at once. The driver name is a local variable that
  only selects the SDL video driver.
\<close>

definition init_option :: "string \<Rightarrow> state_sdl2 \<Rightarrow> init_result" where
  "init_option tok s =
     (if tok = ''d'' \<or> tok = ''dforce'' then
        Init_state (s\<lparr>deinterlace := (if tok = ''d'' then deint_on else deint_off)\<rparr>)
      else if starts_with tok ''display='' then
        Init_state (s\<lparr>display_idx := atoi (drop (length ''display='') tok)\<rparr>)
      else if starts_with tok ''driver='' then Init_state s
      else if tok = ''fs'' then Init_state (s\<lparr>fs := True\<rparr>)
      else if tok = ''help'' then INIT_NOERR
      else if tok = ''novsync'' then Init_state (s\<lparr>vsync := False\<rparr>)
      else if tok = ''nodecorate'' then
        Init_state (s\<lparr>window_flags := window_flags s OR SDL_WINDOW_BORDERLESS\<rparr>)
      else if tok = ''keep-aspect'' then Init_state (s\<lparr>keep_aspect := True\<rparr>)
      else if starts_with tok ''fixed_size'' then
        (if starts_with tok ''fixed_size='' \<and> CHR ''x'' \<in> set (drop (length ''fixed_size='') tok)
         then Init_state (s\<lparr>fixed_size := True,
                  fixed_w := atoi (drop (length ''fixed_size='') tok),
                  fixed_h := atoi (after_char CHR ''x'' (drop (length ''fixed_size='') tok))\<rparr>)
         else Init_state (s\<lparr>fixed_size := True\<rparr>))
      else if starts_with tok ''window_flags='' then
        (case sscanf_i (drop (length ''window_flags='') tok) of
           None \<Rightarrow> Init_NULL
         | Some f \<Rightarrow> Init_state (s\<lparr>window_flags := window_flags s OR word_of_int f\<rparr>))
      else if starts_with tok ''pos='' then
        (if CHR '','' \<notin> set (drop (length ''pos='') tok) then Init_NULL
         else Init_state (s\<lparr>win_x := atoi (drop (length ''pos='') tok),
                  win_y := atoi (after_char CHR '','' (drop (length ''pos='') tok))\<rparr>))
      else if starts_with tok ''renderer='' then
        Init_state (s\<lparr>renderer_idx := atoi (drop (length ''renderer='') tok)\<rparr>)
      else Init_NULL)"

fun init_options :: "string list \<Rightarrow> state_sdl2 \<Rightarrow> init_result" where
  "init_options [] s = Init_state s"
| "init_options (tok # toks) s =
     (case init_option tok s of
        Init_state s1 \<Rightarrow> init_options toks s1
      | r \<Rightarrow> r)"

text \<open>
  \<^verbatim>\<open>display_sdl2_init\<close>: \<open>audio\<close> is \<^verbatim>\<open>flags & DISPLAY_FLAG_AUDIO_ANY\<close>,
  \<open>sdl_init_ok\<close> and \<open>sdl_video_init_ok\<close> say whether \<^verbatim>\<open>SDL_Init\<close> and
  \<^verbatim>\<open>SDL_VideoInit\<close> succeed, and \<open>fmt\<close> is the option string, which may be \<^verbatim>\<open>NULL\<close>.
\<close>

definition display_sdl2_init ::
  "bool \<Rightarrow> bool \<Rightarrow> bool \<Rightarrow> state_sdl2 \<Rightarrow> string option \<Rightarrow> init_result" where
  "display_sdl2_init audio sdl_init_ok sdl_video_init_ok p fmt =
     (if audio then Init_NULL
      else case init_options (strtok_colon [] (case fmt of None \<Rightarrow> [] | Some str \<Rightarrow> str))
                  (state_sdl2_new p) of
             Init_state s \<Rightarrow>
               if \<not> sdl_init_ok then Init_NULL
               else if \<not> sdl_video_init_ok then Init_NULL
               else Init_state s
           | r \<Rightarrow> r)"

subsection \<open>The states the display can reach\<close>

text \<open>
  A state is reachable when \<^verbatim>\<open>display_sdl2_init\<close> returned it, or when it comes from a
  reachable state by a function of the display (the run function and its parts, the
  producer's calls, the reconfiguration request) or by what the rest of the process does
  to the event queue, the pending messages and the answers of SDL.
\<close>

inductive reachable :: "ug_headers \<Rightarrow> state_sdl2 \<Rightarrow> bool" for c :: ug_headers where
  init: "display_sdl2_init audio sdl_init_ok sdl_video_init_ok p fmt = Init_state s \<Longrightarrow>
         reachable c s"
| environment: "reachable c s \<Longrightarrow>
         reachable c (s\<lparr>sdl_events := evs, sdl_results := rs, sdl_pitch := pitch,
                       window_title_param := title, messages := ms\<rparr>)"
| run: "reachable c s \<Longrightarrow> display_sdl2_run c s splash_desc = Inr s' \<Longrightarrow> reachable c s'"
| splash: "reachable c s \<Longrightarrow> loadSplashscreen c s splash_desc = Inr s' \<Longrightarrow> reachable c s'"
| event: "reachable c s \<Longrightarrow> reachable c (handle_event c ev s)"
| loop: "reachable c s \<Longrightarrow> reachable c (event_loop c s)"
| getf: "reachable c s \<Longrightarrow> display_sdl2_getf s = Inr (buffer, s') \<Longrightarrow> reachable c s'"
| putf: "reachable c s \<Longrightarrow> display_sdl2_putf c s frame timeout_ns = Inr (r, s') \<Longrightarrow>
         reachable c s'"
| request: "reachable c s \<Longrightarrow> reachable c (reconfigure_request s desc)"
| reconfigure: "reachable c s \<Longrightarrow> display_sdl2_reconfigure c s desc = Inr (r, s') \<Longrightarrow>
         reachable c s'"

text \<open>
  A frame matches a descriptor when it has the descriptor's pixel format, width and
  height and carries a texture of the corresponding SDL format and the same size; the
  pool matches it when every buffer of the free queue is an allocated frame that does.
\<close>

definition matches_desc :: "video_desc \<Rightarrow> video_frame \<Rightarrow> bool" where
  "matches_desc desc fr =
     (frame_color_spec fr = color_spec desc \<and> tile_width fr = width desc
      \<and> tile_height fr = height desc
      \<and> dispose_udata fr = Some \<lparr>tex_format = get_ug_to_sdl_format (color_spec desc),
                                  tex_w = int (width desc), tex_h = int (height desc)\<rparr>)"

definition pool_matches :: "video_desc \<Rightarrow> state_sdl2 \<Rightarrow> bool" where
  "pool_matches desc s =
     list_all (\<lambda>p. case frames s p of None \<Rightarrow> False | Some fr \<Rightarrow> matches_desc desc fr)
       (free_frame_queue s)"

text \<open>
  A run to evaluate the functions on: the display started with defaults shows a splash
  screen of 1920x1080 UYVY, every SDL call succeeding. \<open>started\<close> is the state in which
  \<^verbatim>\<open>display_sdl2_run\<close> enters its loop.
\<close>

definition example_desc :: video_desc where
  "example_desc =
     \<lparr>width = 1920, height = 1080, color_spec = UYVY, interlacing = PROGRESSIVE,
      tile_count = 1\<rparr>"

definition started :: state_sdl2 where
  "started =
     (case loadSplashscreen ug_headers_std init_state example_desc of
        Inr s \<Rightarrow> s
      | Inl e \<Rightarrow> init_state)"

definition example_desc_720 :: video_desc where
  "example_desc_720 =
     \<lparr>width = 1280, height = 720, color_spec = RGB, interlacing = PROGRESSIVE,
      tile_count = 1\<rparr>"

text \<open>The same start for a display given the option \<^verbatim>\<open>fixed_size\<close>.\<close>

definition started_fixed :: state_sdl2 where
  "started_fixed =
     (case loadSplashscreen ug_headers_std (init_state\<lparr>fixed_size := True\<rparr>) example_desc of
        Inr s \<Rightarrow> s
      | Inl e \<Rightarrow> init_state)"

text \<open>The display initialised with the option \<^verbatim>\<open>d\<close>.\<close>

definition started_deinterlacing :: state_sdl2 where
  "started_deinterlacing =
     (case display_sdl2_init False True True init_state (Some ''d'') of
        Init_state s \<Rightarrow> s
      | r \<Rightarrow> init_state)"

text \<open>The value a call returned, if it did return.\<close>

definition projr_opt :: "stop + 'a \<Rightarrow> 'a option" where
  "projr_opt r = (case r of Inl e \<Rightarrow> None | Inr v \<Rightarrow> Some v)"

section \<open>Termination of the render loop\<close>

lemma sdl_create_events: "sdl_events (snd (sdl_create s)) = sdl_events s"
  by (simp add: sdl_create_def split: list.split)

lemma sdl_create_eventsD: "sdl_create s = (b, s1) \<Longrightarrow> sdl_events s1 = sdl_events s"
  using sdl_create_events [of s] by simp

lemma create_buffers_events: "sdl_events (snd (create_buffers n desc s)) = sdl_events s"
proof (induction n arbitrary: s)
  case 0
  show ?case by simp
next
  case (Suc n)
  obtain b s1 where c: "sdl_create s = (b, s1)" by (cases "sdl_create s")
  from c have "sdl_events s1 = sdl_events s" by (rule sdl_create_eventsD)
  with c Suc.IH show ?case by (cases b) (simp_all add: push_new_buffer_def)
qed

lemma recreate_textures_events: "sdl_events (snd (recreate_textures s desc)) = sdl_events s"
  by (simp add: recreate_textures_def create_buffers_events cleanup_frames_def)

lemma recreate_textures_eventsD:
  "recreate_textures s desc = (b, s1) \<Longrightarrow> sdl_events s1 = sdl_events s"
  using recreate_textures_events [of s desc] by simp

lemma reconfigure_real_fixed:
  assumes "fixed_size s \<and> window s \<noteq> None"
  shows "display_sdl2_reconfigure_real c s desc =
     (case recreate_textures
             (SDL_RenderSetLogicalSize s (int (width desc)) (int (height desc))) desc of
        (ok, s1) \<Rightarrow> (if ok then 1 else 0, s1))"
  unfolding display_sdl2_reconfigure_real_def by (rule if_P [OF assms])

lemma reconfigure_real_window:
  assumes "\<not> (fixed_size s \<and> window s \<noteq> None)"
  shows "display_sdl2_reconfigure_real c s desc =
     (case sdl_create s of
        (False, s1) \<Rightarrow> (FALSE c, s1\<lparr>window := None\<rparr>)
      | (True, s1) \<Rightarrow>
          (case sdl_create (s1\<lparr>window := Some (new_window s1 desc)\<rparr>) of
             (False, s2) \<Rightarrow> (FALSE c, s2\<lparr>renderer := None\<rparr>)
           | (True, s2) \<Rightarrow>
               (case recreate_textures (s2\<lparr>renderer := Some (new_renderer s2 desc)\<rparr>) desc of
                  (False, s3) \<Rightarrow> (FALSE c, s3)
                | (True, s3) \<Rightarrow> (TRUE c, s3\<lparr>current_display_desc := desc\<rparr>))))"
  unfolding display_sdl2_reconfigure_real_def by (rule if_not_P [OF assms])

lemma reconfigure_real_events:
  "sdl_events (snd (display_sdl2_reconfigure_real c s desc)) = sdl_events s"
proof (cases "fixed_size s \<and> window s \<noteq> None")
  case True
  obtain ok s1 where r: "recreate_textures
      (SDL_RenderSetLogicalSize s (int (width desc)) (int (height desc))) desc = (ok, s1)"
    by (cases "recreate_textures
      (SDL_RenderSetLogicalSize s (int (width desc)) (int (height desc))) desc")
  from recreate_textures_eventsD [OF r] have "sdl_events s1 = sdl_events s"
    by (simp add: SDL_RenderSetLogicalSize_def)
  with r show ?thesis by (simp add: reconfigure_real_fixed [OF True])
next
  case nf: False
  obtain b1 s1 where c1: "sdl_create s = (b1, s1)" by (cases "sdl_create s")
  have e1: "sdl_events s1 = sdl_events s" by (rule sdl_create_eventsD [OF c1])
  show ?thesis
  proof (cases b1)
    case False
    with c1 e1 show ?thesis
      by (simp add: reconfigure_real_window [OF nf])
  next
    case b1: True
    obtain b2 s2 where c2: "sdl_create (s1\<lparr>window := Some (new_window s1 desc)\<rparr>) = (b2, s2)"
      by (cases "sdl_create (s1\<lparr>window := Some (new_window s1 desc)\<rparr>)")
    have e2: "sdl_events s2 = sdl_events s" using sdl_create_eventsD [OF c2] e1 by simp
    show ?thesis
    proof (cases b2)
      case False
      with c1 b1 c2 e2 show ?thesis
        by (simp add: reconfigure_real_window [OF nf])
    next
      case b2: True
      obtain b3 s3 where c3:
        "recreate_textures (s2\<lparr>renderer := Some (new_renderer s2 desc)\<rparr>) desc = (b3, s3)"
        by (cases "recreate_textures (s2\<lparr>renderer := Some (new_renderer s2 desc)\<rparr>) desc")
      have e3: "sdl_events s3 = sdl_events s" using recreate_textures_eventsD [OF c3] e2 by simp
      with c1 b1 c2 b2 c3 show ?thesis
        by (cases b3) (simp_all add: reconfigure_real_window [OF nf])
    qed
  qed
qed

lemma display_frame_events: "sdl_events (display_frame s frame) = sdl_events s"
  by (simp add: display_frame_def split: option.split)

lemma process_key_events: "sdl_events (snd (display_sdl2_process_key s key)) = sdl_events s"
  by (simp add: display_sdl2_process_key_def)

lemma process_key_eventsD:
  "display_sdl2_process_key s key = (b, s1) \<Longrightarrow> sdl_events s1 = sdl_events s"
  using process_key_events [of s key] by simp

lemma process_message_events: "sdl_events (process_message s text) = sdl_events s"
proof (cases "take (length ''win-title '') text = ''win-title ''")
  case True
  then show ?thesis by (simp add: process_message_def)
next
  case nt: False
  show ?thesis
  proof (cases "sscanf_d text")
    case None
    with nt show ?thesis by (simp add: process_message_def)
  next
    case (Some key)
    obtain b s1 where k: "display_sdl2_process_key s key = (b, s1)"
      by (cases "display_sdl2_process_key s key")
    from process_key_eventsD [OF k] nt Some k show ?thesis
      by (cases b) (simp_all add: process_message_def)
  qed
qed

lemma process_messages_events: "sdl_events (process_messages ms s) = sdl_events s"
  by (induction ms arbitrary: s) (simp_all add: process_message_events)

lemma handle_event_events: "sdl_events (handle_event c ev s) = sdl_events s"
proof (cases ev)
  case (sdl_user_reconfigure_event desc)
  obtain r s1 where k: "display_sdl2_reconfigure_real c s desc = (r, s1)"
    by (cases "display_sdl2_reconfigure_real c s desc")
  with reconfigure_real_events [of c s desc] sdl_user_reconfigure_event show ?thesis
    by (simp add: handle_event_def)
next
  case (SDL_KEYDOWN keysym)
  obtain b s1 where k:
    "display_sdl2_process_key s (translate_sdl_key_to_ug c keysym) = (b, s1)"
    by (cases "display_sdl2_process_key s (translate_sdl_key_to_ug c keysym)")
  from process_key_eventsD [OF k] k SDL_KEYDOWN show ?thesis
    by (cases b) (simp_all add: handle_event_def Let_def)
qed (simp_all add: handle_event_def display_frame_events process_messages_events)

termination event_loop
  by (relation "measure (\<lambda>(c, s). length (sdl_events s))") (simp_all add: handle_event_events)

declare event_loop.simps [simp del]

section \<open>Key translation\<close>

lemma uint_small_key:
  fixes k :: "32 word"
  assumes "k \<le> 0x7E" shows "uint k \<le> 126"
  using assms by (simp add: word_le_def)

lemma small_key_no_scancode:
  fixes k :: "32 word"
  assumes "k \<le> 0x7E" shows "k AND SDLK_SCANCODE_MASK = 0"
proof -
  have "uint k \<le> 126" by (rule uint_small_key [OF assms])
  then have "uint k div 2 ^ 30 = 0" by simp
  then have "\<not> bit (uint k) 30" by (simp add: bit_iff_odd)
  then have "\<not> bit k 30" by (simp add: bit_uint_iff)
  then have "k AND 2 ^ 30 = 0" using and_exp_eq_0_iff_not_bit [of k 30] by blast
  then show ?thesis by (simp add: SDLK_SCANCODE_MASK_def)
qed

lemma sint_small_key:
  fixes k :: "32 word"
  assumes "k \<le> 0x7E" shows "sint k = uint k"
proof -
  have "uint k \<le> 126" by (rule uint_small_key [OF assms])
  then have a: "uint k < 2 ^ 31" by simp
  have "- (2 ^ 31) \<le> (0 :: int)" by simp
  also have "0 \<le> uint k" by simp
  finally have b: "- (2 ^ 31) \<le> uint k" .
  have "signed_take_bit 31 (uint k) = uint k"
    by (rule signed_take_bit_int_eq_self [OF b a])
  then show ?thesis by (simp add: sint_uint)
qed

lemma sint_lower:
  fixes k :: "32 word"
  assumes "0x61 \<le> k" "k \<le> 0x7A" shows "sint (k - 0x20) = sint k - 32"
proof -
  have le: "k \<le> 0x7E" by (rule order_trans [OF assms(2)]) simp
  from assms(1) have "uint (0x20 :: 32 word) \<le> uint k" by (simp add: word_le_def)
  then have "uint (k - 0x20) = uint k - uint (0x20 :: 32 word)"
    by (rule uint_sub_lem [THEN iffD1])
  then have u: "uint (k - 0x20) = uint k - 32" by simp
  have "k - 0x20 \<le> k" using assms(1) by (simp add: word_le_def u)
  then have "k - 0x20 \<le> 0x7E" using le by (rule order_trans)
  then have "sint (k - 0x20) = uint (k - 0x20)" by (rule sint_small_key)
  with u sint_small_key [OF le] show ?thesis by simp
qed


lemma mask_lock_or: "(m OR l) AND NOT (l OR l') = m AND NOT (l OR l')" for m :: "16 word"
  by (rule bit_eqI) (auto simp add: bit_and_iff bit_or_iff bit_not_iff)

lemma mask_lock_or2: "(m OR l') AND NOT (l OR l') = m AND NOT (l OR l')" for m :: "16 word"
  by (rule bit_eqI) (auto simp add: bit_and_iff bit_or_iff bit_not_iff)

lemma mask_lock_or3: "(m OR (l OR l')) AND NOT (l OR l') = m AND NOT (l OR l')" for m :: "16 word"
  by (rule bit_eqI) (auto simp add: bit_and_iff bit_or_iff bit_not_iff)

lemma mask_lock_and: "(m AND NOT l) AND NOT (l OR l') = m AND NOT (l OR l')" for m :: "16 word"
  by (rule bit_eqI) (auto simp add: bit_and_iff bit_or_iff bit_not_iff)

lemma mask_lock_and2: "(m AND NOT l') AND NOT (l OR l') = m AND NOT (l OR l')" for m :: "16 word"
  by (rule bit_eqI) (auto simp add: bit_and_iff bit_or_iff bit_not_iff)

lemma translate_mod_only:
  assumes "keysym_sym a = keysym_sym b"
    and "keysym_mod a AND NOT (KMOD_NUM OR KMOD_CAPS) = keysym_mod b AND NOT (KMOD_NUM OR KMOD_CAPS)"
  shows "translate_sdl_key_to_ug c a = translate_sdl_key_to_ug c b"
  unfolding translate_sdl_key_to_ug_def by (simp only: assms)

lemma translate_locks:
  "m AND NOT (KMOD_NUM OR KMOD_CAPS) = m' AND NOT (KMOD_NUM OR KMOD_CAPS) \<Longrightarrow>
   translate_sdl_key_to_ug c \<lparr>keysym_sym = k, keysym_mod = m\<rparr> =
   translate_sdl_key_to_ug c \<lparr>keysym_sym = k, keysym_mod = m'\<rparr>"
  by (rule translate_mod_only) (simp_all only: SDL_Keysym.simps)

lemmas key_consts = KMOD_NUM_def KMOD_CAPS_def KMOD_CTRL_def KMOD_SHIFT_def
    SDLK_LCTRL_def SDLK_RCTRL_def SDLK_SCANCODE_MASK_def

lemma translate_shift_only:
  fixes k :: "32 word"
  assumes k: "k \<le> 0x7E" and sh: "sh \<in> {0x0001, 0x0002, 0x0003}"
  shows "translate_sdl_key_to_ug c \<lparr>keysym_sym = k, keysym_mod = sh\<rparr> =
         (if 0x61 \<le> k \<and> k \<le> 0x7A then sint k - 32 else sint k)"
proof -
  have n1: "k \<noteq> SDLK_LCTRL" "k \<noteq> SDLK_RCTRL"
    using k by (auto simp: SDLK_LCTRL_def SDLK_RCTRL_def)
  have m: "k AND SDLK_SCANCODE_MASK = 0" by (rule small_key_no_scancode [OF k])
  have t: "sint (toupper k) = (if 0x61 \<le> k \<and> k \<le> 0x7A then sint k - 32 else sint k)"
    by (simp add: toupper_def sint_lower)
  have mods: "(sh AND NOT (KMOD_NUM OR KMOD_CAPS)) AND KMOD_CTRL = 0"
    "((sh AND NOT (KMOD_NUM OR KMOD_CAPS)) AND NOT KMOD_CTRL) AND KMOD_SHIFT \<noteq> 0"
    "((sh AND NOT (KMOD_NUM OR KMOD_CAPS)) AND NOT KMOD_CTRL) AND NOT KMOD_SHIFT = 0"
    using sh by (auto simp: KMOD_NUM_def KMOD_CAPS_def KMOD_CTRL_def KMOD_SHIFT_def)
  show ?thesis
    unfolding translate_sdl_key_to_ug_def Let_def
    by (simp only: SDL_Keysym.simps n1 m mods t simp_thms if_True if_False)
qed

lemma translate_shift_locks:
  fixes k :: "32 word"
  assumes k: "k \<le> 0x7E" and sh: "sh \<in> {0x0001, 0x0002, 0x0003}"
    and lk: "lk \<in> {0, KMOD_NUM, KMOD_CAPS, KMOD_NUM OR KMOD_CAPS}"
  shows "translate_sdl_key_to_ug c \<lparr>keysym_sym = k, keysym_mod = sh OR lk\<rparr> =
         (if 0x61 \<le> k \<and> k \<le> 0x7A then sint k - 32 else sint k)"
proof -
  have "(sh OR lk) AND NOT (KMOD_NUM OR KMOD_CAPS) = sh AND NOT (KMOD_NUM OR KMOD_CAPS)"
    using lk mask_lock_or [of sh KMOD_NUM KMOD_CAPS] mask_lock_or2 [of sh KMOD_CAPS KMOD_NUM]
      mask_lock_or3 [of sh KMOD_NUM KMOD_CAPS]
    by auto
  then have "translate_sdl_key_to_ug c \<lparr>keysym_sym = k, keysym_mod = sh OR lk\<rparr> =
      translate_sdl_key_to_ug c \<lparr>keysym_sym = k, keysym_mod = sh\<rparr>"
    by (rule translate_locks)
  then show ?thesis by (simp only: translate_shift_only [OF k sh])
qed

text \<open>
  C8. The translation ignores the lock modifiers: setting or clearing the num-lock or the
  caps-lock bit of the modifiers never changes the result, and \<^verbatim>\<open>'d'\<close> with caps lock
  translates as \<^verbatim>\<open>'d'\<close> without. A control key alone translates to \<open>0\<close>, which the
  loop takes as nothing to do (the state stays as it is; the error value is \<open>- 1\<close>). A
  key below \<open>0x7F\<close> pressed with shift (left, right or both, the lock modifiers in any
  position) translates to its upper-case code point: a lower-case letter to the letter
  32 below, any other key to itself; so \<^verbatim>\<open>'a'\<close> with shift gives \<^verbatim>\<open>'A'\<close>.
\<close>

theorem translate_key_properties:
  fixes k :: "32 word" and m sh lk :: "16 word"
  shows
    "translate_sdl_key_to_ug c \<lparr>keysym_sym = k, keysym_mod = m OR KMOD_NUM\<rparr> =
       translate_sdl_key_to_ug c \<lparr>keysym_sym = k, keysym_mod = m\<rparr>
     \<and> translate_sdl_key_to_ug c \<lparr>keysym_sym = k, keysym_mod = m OR KMOD_CAPS\<rparr> =
       translate_sdl_key_to_ug c \<lparr>keysym_sym = k, keysym_mod = m\<rparr>
     \<and> translate_sdl_key_to_ug c \<lparr>keysym_sym = k, keysym_mod = m AND NOT KMOD_NUM\<rparr> =
       translate_sdl_key_to_ug c \<lparr>keysym_sym = k, keysym_mod = m\<rparr>
     \<and> translate_sdl_key_to_ug c \<lparr>keysym_sym = k, keysym_mod = m AND NOT KMOD_CAPS\<rparr> =
       translate_sdl_key_to_ug c \<lparr>keysym_sym = k, keysym_mod = m\<rparr>
     \<and> translate_sdl_key_to_ug c \<lparr>keysym_sym = 0x64, keysym_mod = KMOD_CAPS\<rparr> =
       translate_sdl_key_to_ug c \<lparr>keysym_sym = 0x64, keysym_mod = 0\<rparr>
     \<and> translate_sdl_key_to_ug c \<lparr>keysym_sym = SDLK_LCTRL, keysym_mod = m\<rparr> = 0
     \<and> translate_sdl_key_to_ug c \<lparr>keysym_sym = SDLK_RCTRL, keysym_mod = m\<rparr> = 0
     \<and> handle_event c (SDL_KEYDOWN \<lparr>keysym_sym = SDLK_LCTRL, keysym_mod = m\<rparr>) s = s
     \<and> handle_event c (SDL_KEYDOWN \<lparr>keysym_sym = SDLK_RCTRL, keysym_mod = m\<rparr>) s = s
     \<and> translate_sdl_key_to_ug c \<lparr>keysym_sym = 0x61, keysym_mod = KMOD_SHIFT\<rparr> = 0x41
     \<and> (k \<le> 0x7E \<and> sh \<in> {0x0001, 0x0002, 0x0003}
          \<and> lk \<in> {0, KMOD_NUM, KMOD_CAPS, KMOD_NUM OR KMOD_CAPS} \<longrightarrow>
        translate_sdl_key_to_ug c \<lparr>keysym_sym = k, keysym_mod = sh OR lk\<rparr> =
          (if 0x61 \<le> k \<and> k \<le> 0x7A then sint k - 32 else sint k))"
proof -
  have num: "translate_sdl_key_to_ug c \<lparr>keysym_sym = k, keysym_mod = m OR KMOD_NUM\<rparr> =
       translate_sdl_key_to_ug c \<lparr>keysym_sym = k, keysym_mod = m\<rparr>"
    by (rule translate_locks) (rule mask_lock_or)
  have caps: "translate_sdl_key_to_ug c \<lparr>keysym_sym = k, keysym_mod = m OR KMOD_CAPS\<rparr> =
       translate_sdl_key_to_ug c \<lparr>keysym_sym = k, keysym_mod = m\<rparr>"
    by (rule translate_locks) (rule mask_lock_or2)
  have no_num: "translate_sdl_key_to_ug c \<lparr>keysym_sym = k, keysym_mod = m AND NOT KMOD_NUM\<rparr> =
       translate_sdl_key_to_ug c \<lparr>keysym_sym = k, keysym_mod = m\<rparr>"
    by (rule translate_locks) (rule mask_lock_and)
  have no_caps: "translate_sdl_key_to_ug c \<lparr>keysym_sym = k, keysym_mod = m AND NOT KMOD_CAPS\<rparr> =
       translate_sdl_key_to_ug c \<lparr>keysym_sym = k, keysym_mod = m\<rparr>"
    by (rule translate_locks) (rule mask_lock_and2)
  have d: "translate_sdl_key_to_ug c \<lparr>keysym_sym = 0x64, keysym_mod = KMOD_CAPS\<rparr> =
       translate_sdl_key_to_ug c \<lparr>keysym_sym = 0x64, keysym_mod = 0\<rparr>"
    using mask_lock_or2 [of 0 KMOD_CAPS KMOD_NUM] by (intro translate_locks) simp
  have lctrl: "translate_sdl_key_to_ug c \<lparr>keysym_sym = SDLK_LCTRL, keysym_mod = m\<rparr> = 0"
    by (simp add: translate_sdl_key_to_ug_def)
  have rctrl: "translate_sdl_key_to_ug c \<lparr>keysym_sym = SDLK_RCTRL, keysym_mod = m\<rparr> = 0"
    by (simp add: translate_sdl_key_to_ug_def)
  have hl: "handle_event c (SDL_KEYDOWN \<lparr>keysym_sym = SDLK_LCTRL, keysym_mod = m\<rparr>) s = s"
    by (simp add: handle_event_def lctrl)
  have hr: "handle_event c (SDL_KEYDOWN \<lparr>keysym_sym = SDLK_RCTRL, keysym_mod = m\<rparr>) s = s"
    by (simp add: handle_event_def rctrl)
  have a: "translate_sdl_key_to_ug c \<lparr>keysym_sym = 0x61, keysym_mod = KMOD_SHIFT\<rparr> = 0x41"
    by (simp add: translate_sdl_key_to_ug_def key_consts toupper_def)
  have sh: "k \<le> 0x7E \<and> sh \<in> {0x0001, 0x0002, 0x0003}
          \<and> lk \<in> {0, KMOD_NUM, KMOD_CAPS, KMOD_NUM OR KMOD_CAPS} \<longrightarrow>
        translate_sdl_key_to_ug c \<lparr>keysym_sym = k, keysym_mod = sh OR lk\<rparr> =
          (if 0x61 \<le> k \<and> k \<le> 0x7A then sint k - 32 else sint k)"
    using translate_shift_locks [of k sh lk c] by blast
  from num caps no_num no_caps d lctrl rctrl hl hr a sh show ?thesis by blast
qed

theorem translate_key_properties_witness:
  "(0x61 :: 32 word) \<le> 0x7E \<and> (0x0001 :: 16 word) \<in> {0x0001, 0x0002, 0x0003}
   \<and> KMOD_CAPS \<in> {0, KMOD_NUM, KMOD_CAPS, KMOD_NUM OR KMOD_CAPS}
   \<and> translate_sdl_key_to_ug ug_headers_std
        \<lparr>keysym_sym = 0x61, keysym_mod = 0x0001 OR KMOD_CAPS\<rparr> = 65
   \<and> translate_sdl_key_to_ug ug_headers_std \<lparr>keysym_sym = 0x64, keysym_mod = 0\<rparr> = 100"
proof -
  have h: "(0x61 :: 32 word) \<le> 0x7E \<and> (0x0001 :: 16 word) \<in> {0x0001, 0x0002, 0x0003}
      \<and> KMOD_CAPS \<in> {0, KMOD_NUM, KMOD_CAPS, KMOD_NUM OR KMOD_CAPS}"
    by simp
  have "(0x61 :: 32 word) \<le> 0x7E \<and> (0x0001 :: 16 word) \<in> {0x0001, 0x0002, 0x0003}
      \<and> KMOD_CAPS \<in> {0, KMOD_NUM, KMOD_CAPS, KMOD_NUM OR KMOD_CAPS} \<longrightarrow>
    translate_sdl_key_to_ug ug_headers_std
        \<lparr>keysym_sym = 0x61, keysym_mod = 0x0001 OR KMOD_CAPS\<rparr> =
      (if (0x61 :: 32 word) \<le> 0x61 \<and> (0x61 :: 32 word) \<le> 0x7A
       then sint (0x61 :: 32 word) - 32 else sint (0x61 :: 32 word))"
    using translate_key_properties
      [where c = ug_headers_std and k = "0x61" and sh = "0x0001" and lk = KMOD_CAPS]
    by blast
  with h have "translate_sdl_key_to_ug ug_headers_std
        \<lparr>keysym_sym = 0x61, keysym_mod = 0x0001 OR KMOD_CAPS\<rparr> =
      (if (0x61 :: 32 word) \<le> 0x61 \<and> (0x61 :: 32 word) \<le> 0x7A
       then sint (0x61 :: 32 word) - 32 else sint (0x61 :: 32 word))"
    by blast
  then have "translate_sdl_key_to_ug ug_headers_std
        \<lparr>keysym_sym = 0x61, keysym_mod = 0x0001 OR KMOD_CAPS\<rparr> = 65"
    by simp
  moreover have
    "translate_sdl_key_to_ug ug_headers_std \<lparr>keysym_sym = 0x64, keysym_mod = 0\<rparr> = 100"
    by (simp add: translate_sdl_key_to_ug_def key_consts)
  ultimately show ?thesis using h by simp
qed

section \<open>Evaluating the example run\<close>

lemma sdl_create_ok: "sdl_results s = [] \<Longrightarrow> sdl_create s = (True, s)"
  by (simp add: sdl_create_def)

lemma recreate_textures_ok:
  "sdl_results s = [] \<Longrightarrow> recreate_textures s desc =
    (True, push_new_buffer desc (push_new_buffer desc (cleanup_frames s)))"
  by (simp add: recreate_textures_def BUFFER_COUNT_def numeral_2_eq_2 sdl_create_ok
      cleanup_frames_def push_new_buffer_def)

lemma init_fields:
  "sdl_results init_state = []" "fixed_size init_state = False" "free_frame_queue init_state = []"
  "next_frame init_state = 0" "sdl_events init_state = []" "should_exit_sdl init_state = False"
  "last_frame init_state = None" "window init_state = None"
  by (simp_all add: init_state_def)

lemma started_fields:
  "free_frame_queue started = [1, 0]" "last_frame started = Some 0" "sdl_events started = []"
  "should_exit_sdl started = False"
  by (simp_all add: started_def loadSplashscreen_def reconfigure_real_window
      init_fields sdl_create_ok recreate_textures_ok display_sdl2_getf_def display_frame_def
      cleanup_frames_def push_new_buffer_def)

lemma std_fields:
  "PUTF_DISCARD ug_headers_std = - 1" "PUTF_BLOCKING ug_headers_std = 9223372036854775807"
  "TRUE ug_headers_std = 1" "FALSE ug_headers_std = 0"
  by (simp_all add: ug_headers_std_def)

lemma started_more:
  "sdl_results started = []" "window started \<noteq> None" "fixed_size started = False"
  "next_frame started = 2" "current_display_desc started = example_desc"
  by (simp_all add: started_def loadSplashscreen_def reconfigure_real_window
      init_fields sdl_create_ok recreate_textures_ok display_sdl2_getf_def display_frame_def
      cleanup_frames_def push_new_buffer_def)

lemma started_fixed_fields:
  "sdl_results started_fixed = []" "window started_fixed \<noteq> None" "fixed_size started_fixed"
  "next_frame started_fixed = 2" "current_display_desc started_fixed = example_desc"
  "free_frame_queue started_fixed = [1, 0]" "last_frame started_fixed = Some 0"
  "sdl_events started_fixed = []" "should_exit_sdl started_fixed = False"
  by (simp_all add: started_fixed_def loadSplashscreen_def reconfigure_real_window
      init_fields sdl_create_ok recreate_textures_ok display_sdl2_getf_def display_frame_def
      cleanup_frames_def push_new_buffer_def)

section \<open>Submitting frames\<close>

text \<open>
  The two descriptions of the wait agree: the call is blocked exactly where its wait is
  \<^verbatim>\<open>wait(lk, pred)\<close> and no buffer is free, and an assertion fails exactly for a
  \<^verbatim>\<open>NULL\<close> frame in discard mode.
\<close>

lemma putf_blocked_iff:
  "display_sdl2_putf c s frame timeout_ns = Inl Blocked \<longleftrightarrow>
     putf_wait c frame timeout_ns = Wait \<and> free_frame_queue s = []"
  by (auto simp: display_sdl2_putf_def putf_wait_def split: option.splits)

lemma putf_assertion_iff:
  "display_sdl2_putf c s frame timeout_ns = Inl Assertion_failed \<longleftrightarrow>
     timeout_ns = PUTF_DISCARD c \<and> frame = None"
  by (auto simp: display_sdl2_putf_def split: option.splits)

text \<open>
  C4. A frame that is not \<^verbatim>\<open>NULL\<close>, submitted with a timeout \<open>timeout_ns > 0\<close> that is
  neither \<^verbatim>\<open>PUTF_BLOCKING\<close> nor \<^verbatim>\<open>PUTF_DISCARD\<close>, whatever the other threads do
  meanwhile (\<open>world\<close>): whenever the call returns, its wait has taken at most
  \<open>timeout_ns\<close> nanoseconds. If the free queue is still empty when the wait ends, the
  time is up, the call returns \<open>1\<close> (the frame was dropped; not \<open>0\<close>, and no abort), the
  frame goes back to the free queue and the event queue is as it was, so the frame is not
  posted to the render loop. If a buffer is free when the wait ends, the frame is posted
  and the call returns \<open>0\<close>. And the call does return: at once if a buffer is free on
  entry, and otherwise at the latest when the time is up.
\<close>

theorem putf_timed_wait:
  assumes "0 < timeout_ns" and "timeout_ns \<noteq> PUTF_BLOCKING c"
    and "timeout_ns \<noteq> PUTF_DISCARD c"
  shows "(putf_returns c world (Some f) timeout_ns t res \<longrightarrow>
            0 \<le> t \<and> t \<le> timeout_ns
          \<and> (free_frame_queue (world t) = [] \<longrightarrow>
                t = timeout_ns \<and> res = (1, (world t)\<lparr>free_frame_queue := [f]\<rparr>)
              \<and> sdl_events (snd res) = sdl_events (world t))
          \<and> (free_frame_queue (world t) \<noteq> [] \<longrightarrow>
                res = (0, (world t)\<lparr>sdl_events := sdl_events (world t) @
                                      [sdl_user_new_frame_event (Some f)]\<rparr>)))
       \<and> (\<exists>res. putf_returns c world (Some f) timeout_ns
                  (if free_frame_queue (world 0) = [] then timeout_ns else 0) res)"
proof -
  have k: "putf_wait c (Some f) timeout_ns = Wait_for timeout_ns"
    using assms by (simp add: putf_wait_def)
  have p: "display_sdl2_putf c s (Some f) timeout_ns =
      (if free_frame_queue s = [] then Inr (1, s\<lparr>free_frame_queue := [f]\<rparr>)
       else Inr (0, s\<lparr>sdl_events := sdl_events s @ [sdl_user_new_frame_event (Some f)]\<rparr>))" for s
    using assms by (simp add: display_sdl2_putf_def)
  have a: "putf_returns c world (Some f) timeout_ns t res \<longrightarrow>
            0 \<le> t \<and> t \<le> timeout_ns
          \<and> (free_frame_queue (world t) = [] \<longrightarrow>
                t = timeout_ns \<and> res = (1, (world t)\<lparr>free_frame_queue := [f]\<rparr>)
              \<and> sdl_events (snd res) = sdl_events (world t))
          \<and> (free_frame_queue (world t) \<noteq> [] \<longrightarrow>
                res = (0, (world t)\<lparr>sdl_events := sdl_events (world t) @
                                      [sdl_user_new_frame_event (Some f)]\<rparr>))"
    using assms(1) by (auto simp: putf_returns_def k p wait_ends_def split: if_splits)
  have b: "\<exists>res. putf_returns c world (Some f) timeout_ns
                  (if free_frame_queue (world 0) = [] then timeout_ns else 0) res"
    using assms(1) by (simp add: putf_returns_def k p wait_ends_def)
  from a b show ?thesis by blast
qed

theorem putf_timed_wait_witness:
  "(0 :: int) < 1000 \<and> 1000 \<noteq> PUTF_BLOCKING ug_headers_std
   \<and> 1000 \<noteq> PUTF_DISCARD ug_headers_std
   \<and> putf_returns ug_headers_std (\<lambda>t. started\<lparr>free_frame_queue := []\<rparr>) (Some 0) 1000 1000
        (1, started\<lparr>free_frame_queue := [0]\<rparr>)
   \<and> \<not> putf_returns ug_headers_std (\<lambda>t. started\<lparr>free_frame_queue := []\<rparr>) (Some 0) 1000 1001
        (1, started\<lparr>free_frame_queue := [0]\<rparr>)"
proof -
  let ?w = "\<lambda>t :: int. started\<lparr>free_frame_queue := []\<rparr>"
  have h: "(0 :: int) < 1000" "1000 \<noteq> PUTF_BLOCKING ug_headers_std"
    "1000 \<noteq> PUTF_DISCARD ug_headers_std"
    by (simp_all add: std_fields)
  note th = putf_timed_wait [OF h, where world = ?w and f = 0]
  have "\<exists>res. putf_returns ug_headers_std ?w (Some 0) 1000
      (if free_frame_queue (?w 0) = [] then 1000 else 0) res"
    using th [where t = 0 and res = "(0, started)"] by (rule conjunct2)
  then obtain res where r: "putf_returns ug_headers_std ?w (Some 0) 1000 1000 res"
    by auto
  with th [where t = 1000 and res = res]
  have "res = (1, started\<lparr>free_frame_queue := [0]\<rparr>)" by simp
  with r have one: "putf_returns ug_headers_std ?w (Some 0) 1000 1000
      (1, started\<lparr>free_frame_queue := [0]\<rparr>)" by simp
  have two: "\<not> putf_returns ug_headers_std ?w (Some 0) 1000 1001
      (1, started\<lparr>free_frame_queue := [0]\<rparr>)"
    using th [where t = 1001 and res = "(1, started\<lparr>free_frame_queue := [0]\<rparr>)"] by auto
  from h one two show ?thesis by blast
qed


text \<open>
  C5, as the code has it. A frame submitted without waiting (\<open>timeout_ns \<le> 0\<close>, not
  \<^verbatim>\<open>PUTF_DISCARD\<close>; \<open>0\<close> is the immediate mode) always returns at once. The frame is
  posted as a new-frame event when it is \<^verbatim>\<open>NULL\<close> or the free queue is not empty. A frame
  that is not \<^verbatim>\<open>NULL\<close>, submitted while the free queue is empty, is not posted: it is
  pushed onto the free queue and the call returns \<open>1\<close>, the frame being dropped.
\<close>

theorem putf_immediate:
  assumes "timeout_ns \<le> 0" and "timeout_ns \<noteq> PUTF_DISCARD c"
  shows "display_sdl2_putf c s frame timeout_ns =
     (case frame of
        Some f \<Rightarrow>
          if free_frame_queue s = [] then Inr (1, s\<lparr>free_frame_queue := [f]\<rparr>)
          else Inr (0, s\<lparr>sdl_events := sdl_events s @ [sdl_user_new_frame_event (Some f)]\<rparr>)
      | None \<Rightarrow> Inr (0, s\<lparr>sdl_events := sdl_events s @ [sdl_user_new_frame_event None]\<rparr>))"
  using assms by (simp add: display_sdl2_putf_def split: option.split)

theorem putf_immediate_witness:
  "(0 :: int) \<le> 0 \<and> 0 \<noteq> PUTF_DISCARD ug_headers_std
   \<and> display_sdl2_putf ug_headers_std (started\<lparr>free_frame_queue := [0]\<rparr>) (Some 1) 0 =
       Inr (0, started\<lparr>free_frame_queue := [0],
                       sdl_events := [sdl_user_new_frame_event (Some 1)]\<rparr>)
   \<and> display_sdl2_putf ug_headers_std (started\<lparr>free_frame_queue := []\<rparr>) (Some 1) 0 =
       Inr (1, started\<lparr>free_frame_queue := [1]\<rparr>)"
  using putf_immediate [of 0 ug_headers_std "started\<lparr>free_frame_queue := [0]\<rparr>" "Some 1"]
    putf_immediate [of 0 ug_headers_std "started\<lparr>free_frame_queue := []\<rparr>" "Some 1"]
  by (simp add: std_fields started_fields)

text \<open>
  C5 as it is stated fails: after the splash screen the producer acquires both buffers,
  the free queue is empty, and buffer \<open>0\<close> submitted with timeout \<open>0\<close> is not posted (the
  event queue stays empty) but pushed back onto the free queue.
\<close>

theorem putf_immediate_counterexample:
  "map_option (\<lambda>sys. (free_frame_queue (fst sys), sdl_events (fst sys), snd sys))
     (run_actions ug_headers_std [Acquire, Acquire, Submit (Some 0) 0] (started, []))
   = Some ([0], [], [1])
   \<and> map_option fst (projr_opt (display_sdl2_putf ug_headers_std
        (started\<lparr>free_frame_queue := []\<rparr>) (Some 0) 0)) = Some 1"
  by (simp add: step_def display_sdl2_getf_def display_sdl2_putf_def started_fields std_fields
      projr_opt_def)

section \<open>The frame pool under acquire, submit and display\<close>

lemma process_key_queueD:
  "display_sdl2_process_key s key = (b, s1) \<Longrightarrow>
   free_frame_queue s1 = free_frame_queue s"
  by (auto simp: display_sdl2_process_key_def split: if_splits)

lemma process_message_queue:
  "free_frame_queue (process_message s text) = free_frame_queue s"
proof (cases "take (length ''win-title '') text = ''win-title ''")
  case True
  then show ?thesis by (simp add: process_message_def)
next
  case nt: False
  show ?thesis
  proof (cases "sscanf_d text")
    case None
    with nt show ?thesis by (simp add: process_message_def)
  next
    case (Some key)
    obtain b s1 where k: "display_sdl2_process_key s key = (b, s1)"
      by (cases "display_sdl2_process_key s key")
    from process_key_queueD [OF k] nt Some k show ?thesis
      by (cases b) (simp_all add: process_message_def)
  qed
qed

lemma process_messages_queue:
  "free_frame_queue (process_messages ms s) = free_frame_queue s"
  by (induction ms arbitrary: s) (simp_all add: process_message_queue)

lemma display_frame_redraw: "display_frame s (last_frame s) = s"
  by (simp add: display_frame_def split: option.split)

lemma handle_event_queue:
  assumes "\<And>d. ev \<noteq> sdl_user_reconfigure_event d"
    and "\<And>f. ev = sdl_user_new_frame_event (Some f) \<Longrightarrow> last_frame s \<noteq> Some f"
  shows "length (free_frame_queue (handle_event c ev s)) =
     length (free_frame_queue s) + (if frame_of_event ev \<noteq> None then 1 else 0)"
proof (cases ev)
  case (sdl_user_reconfigure_event desc)
  with assms(1) [of desc] show ?thesis by blast
next
  case (sdl_user_new_frame_event frame)
  show ?thesis
  proof (cases frame)
    case None
    with sdl_user_new_frame_event show ?thesis by (simp add: handle_event_def)
  next
    case (Some f)
    with sdl_user_new_frame_event assms(2) [of f] show ?thesis
      by (simp add: handle_event_def display_frame_def)
  qed
next
  case (SDL_KEYDOWN keysym)
  obtain b s1 where k:
    "display_sdl2_process_key s (translate_sdl_key_to_ug c keysym) = (b, s1)"
    by (cases "display_sdl2_process_key s (translate_sdl_key_to_ug c keysym)")
  from process_key_queueD [OF k] k SDL_KEYDOWN show ?thesis
    by (cases b) (simp_all add: handle_event_def Let_def)
qed (simp_all add: handle_event_def display_frame_redraw process_messages_queue)

lemma length_remove1_mem: "x \<in> set xs \<Longrightarrow> Suc (length (remove1 x xs)) = length xs"
  by (induction xs) auto

text \<open>
  What does hold: an acquire, a submit of a buffer the producer holds (in any mode), and
  an iteration of the render loop keep \<open>free_count + in_flight_count\<close> as it is,
  provided the event the loop handles is not a reconfiguration and is not a new-frame
  event for the buffer that is \<open>last_frame\<close>.
\<close>

lemma step_keeps_pool_count:
  assumes st: "step c a (s, held) = Some (s', held')"
    and rc: "\<And>ev evs d. a = Render \<Longrightarrow> sdl_events s = ev # evs \<Longrightarrow>
               ev \<noteq> sdl_user_reconfigure_event d"
    and rd: "\<And>f evs. a = Render \<Longrightarrow> sdl_events s = sdl_user_new_frame_event (Some f) # evs \<Longrightarrow>
               last_frame s \<noteq> Some f"
  shows "free_count (s', held') + in_flight_count (s', held') =
         free_count (s, held) + in_flight_count (s, held)"
proof (cases a)
  case Acquire
  with st show ?thesis
    by (auto simp: step_def display_sdl2_getf_def free_count_def in_flight_count_def
        split: list.splits)
next
  case (Submit frame t)
  show ?thesis
  proof (cases frame)
    case None
    with st Submit show ?thesis
      by (auto simp: step_def display_sdl2_putf_def free_count_def in_flight_count_def
          split: if_splits)
  next
    case (Some f)
    with st Submit have m: "f \<in> set held" by (auto simp: step_def split: if_splits)
    from length_remove1_mem [OF m] st Submit Some show ?thesis
      by (auto simp: step_def display_sdl2_putf_def free_count_def in_flight_count_def
          split: if_splits)
  qed
next
  case Render
  from st Render obtain ev evs where ev: "sdl_events s = ev # evs"
    and s': "s' = handle_event c ev (s\<lparr>sdl_events := evs\<rparr>)" and h: "held' = held"
    by (auto simp: step_def split: if_splits list.splits)
  have q: "length (free_frame_queue s') =
      length (free_frame_queue s) + (if frame_of_event ev \<noteq> None then 1 else 0)"
    unfolding s'
    using handle_event_queue [of ev "s\<lparr>sdl_events := evs\<rparr>" c] rc [OF Render ev] rd [OF Render]
      ev by simp
  have e: "sdl_events s' = evs" unfolding s' by (simp add: handle_event_events)
  from q e ev h show ?thesis by (simp add: free_count_def in_flight_count_def)
qed

text \<open>
  C10. When the render loop displays a frame other than the last displayed one, the
  buffer is pushed onto the free queue and recorded as \<open>last_frame\<close>: the buffer is in
  the free pool while it is the redraw source. With no other free buffer the next
  \<^verbatim>\<open>display_sdl2_getf\<close> hands this very buffer to the producer, and \<open>last_frame\<close> still
  points to it afterwards.
\<close>

theorem display_frame_frees_last_frame:
  assumes "last_frame s \<noteq> Some f"
  shows "handle_event c (sdl_user_new_frame_event (Some f)) s = display_frame s (Some f)
     \<and> free_frame_queue (display_frame s (Some f)) = free_frame_queue s @ [f]
     \<and> last_frame (display_frame s (Some f)) = Some f
     \<and> f \<in> set (free_frame_queue (display_frame s (Some f)))
     \<and> (free_frame_queue s = [] \<longrightarrow>
          display_sdl2_getf (display_frame s (Some f)) =
            Inr (f, (display_frame s (Some f))\<lparr>free_frame_queue := []\<rparr>)
          \<and> last_frame ((display_frame s (Some f))\<lparr>free_frame_queue := []\<rparr>) = Some f)"
  using assms by (simp add: handle_event_def display_frame_def display_sdl2_getf_def)

theorem display_frame_frees_last_frame_witness:
  "last_frame (started\<lparr>free_frame_queue := []\<rparr>) \<noteq> Some 1
   \<and> free_frame_queue (started\<lparr>free_frame_queue := []\<rparr>) = []
   \<and> free_frame_queue (display_frame (started\<lparr>free_frame_queue := []\<rparr>) (Some 1)) = [1]
   \<and> last_frame (display_frame (started\<lparr>free_frame_queue := []\<rparr>) (Some 1)) = Some 1
   \<and> map_option fst (projr_opt
         (display_sdl2_getf (display_frame (started\<lparr>free_frame_queue := []\<rparr>) (Some 1))))
       = Some 1"
  using display_frame_frees_last_frame
    [of "started\<lparr>free_frame_queue := []\<rparr>" 1 ug_headers_std]
  by (simp add: started_fields projr_opt_def)

text \<open>
  C1 fails on the code. After the splash screen the pool holds both buffers
  (\<open>free_count + in_flight_count = BUFFER_COUNT\<close>) and buffer \<open>0\<close> is \<open>last_frame\<close>. The
  producer acquires buffer \<open>1\<close> and discards it, acquires buffer \<open>0\<close> and submits it;
  the render loop displays it, takes it for a redraw because it is \<open>last_frame\<close>, and
  does not push it onto the free queue. No operation is in progress, one buffer is free
  and none is in flight.
\<close>

theorem pool_invariant_broken:
  "free_count (started, []) + in_flight_count (started, []) = BUFFER_COUNT
   \<and> map_option (\<lambda>sys. (free_count sys, in_flight_count sys, sdl_events (fst sys), snd sys))
       (run_actions ug_headers_std
          [Acquire, Submit (Some 1) (PUTF_DISCARD ug_headers_std),
           Acquire, Submit (Some 0) (PUTF_BLOCKING ug_headers_std), Render]
          (started, []))
     = Some (1, 0, [], [])
   \<and> BUFFER_COUNT = 2"
  by (simp add: step_def display_sdl2_getf_def display_sdl2_putf_def started_fields std_fields
      handle_event_def display_frame_def free_count_def in_flight_count_def BUFFER_COUNT_def)

section \<open>The render loop\<close>

text \<open>
  The handlers do not look at the event queue, only the sentinel sets \<open>should_exit_sdl\<close>,
  and the loop works a queue off from the front.
\<close>

lemma sdl_create_upd:
  "sdl_create (s\<lparr>sdl_events := X\<rparr>) = apsnd (\<lambda>t. t\<lparr>sdl_events := X\<rparr>) (sdl_create s)"
  by (simp add: sdl_create_def split: list.split)

lemma create_buffers_upd:
  "create_buffers n desc (s\<lparr>sdl_events := X\<rparr>) =
     apsnd (\<lambda>t. t\<lparr>sdl_events := X\<rparr>) (create_buffers n desc s)"
proof (induction n arbitrary: s)
  case 0
  show ?case by simp
next
  case (Suc n)
  obtain b s1 where c: "sdl_create s = (b, s1)" by (cases "sdl_create s")
  have p: "push_new_buffer desc (s1\<lparr>sdl_events := X\<rparr>) =
      (push_new_buffer desc s1)\<lparr>sdl_events := X\<rparr>"
    by (simp add: push_new_buffer_def)
  show ?case
  proof (cases b)
    case True
    with c show ?thesis by (simp add: sdl_create_upd p Suc.IH)
  next
    case False
    with c show ?thesis by (simp add: sdl_create_upd)
  qed
qed

lemma recreate_textures_upd:
  "recreate_textures (s\<lparr>sdl_events := X\<rparr>) desc =
     apsnd (\<lambda>t. t\<lparr>sdl_events := X\<rparr>) (recreate_textures s desc)"
proof -
  have "cleanup_frames (s\<lparr>sdl_events := X\<rparr>) = (cleanup_frames s)\<lparr>sdl_events := X\<rparr>"
    by (simp add: cleanup_frames_def)
  then show ?thesis by (simp add: recreate_textures_def create_buffers_upd)
qed

lemma reconfigure_real_upd:
  "display_sdl2_reconfigure_real c (s\<lparr>sdl_events := X\<rparr>) desc =
     apsnd (\<lambda>t. t\<lparr>sdl_events := X\<rparr>) (display_sdl2_reconfigure_real c s desc)"
proof (cases "fixed_size s \<and> window s \<noteq> None")
  case True
  then have f: "fixed_size (s\<lparr>sdl_events := X\<rparr>) \<and> window (s\<lparr>sdl_events := X\<rparr>) \<noteq> None"
    by simp
  have l: "SDL_RenderSetLogicalSize (s\<lparr>sdl_events := X\<rparr>) w h =
      (SDL_RenderSetLogicalSize s w h)\<lparr>sdl_events := X\<rparr>" for w h
    by (simp add: SDL_RenderSetLogicalSize_def)
  obtain ok s1 where r: "recreate_textures
      (SDL_RenderSetLogicalSize s (int (width desc)) (int (height desc))) desc = (ok, s1)"
    by (cases "recreate_textures
      (SDL_RenderSetLogicalSize s (int (width desc)) (int (height desc))) desc")
  show ?thesis
    by (simp add: reconfigure_real_fixed [OF True] reconfigure_real_fixed [OF f] l
        recreate_textures_upd r)
next
  case nf: False
  then have f: "\<not> (fixed_size (s\<lparr>sdl_events := X\<rparr>) \<and> window (s\<lparr>sdl_events := X\<rparr>) \<noteq> None)"
    by simp
  obtain b1 s1 where c1: "sdl_create s = (b1, s1)" by (cases "sdl_create s")
  show ?thesis
  proof (cases b1)
    case False
    with c1 show ?thesis
      by (simp add: reconfigure_real_window [OF nf] reconfigure_real_window [OF f] sdl_create_upd)
  next
    case b1: True
    have w: "new_window (s1\<lparr>sdl_events := X\<rparr>) desc = new_window s1 desc"
      by (simp add: new_window_def)
    have wu: "s1\<lparr>sdl_events := X, window := Some (new_window s1 desc)\<rparr> =
        s1\<lparr>window := Some (new_window s1 desc)\<rparr>\<lparr>sdl_events := X\<rparr>"
      by simp
    obtain b2 s2 where c2: "sdl_create (s1\<lparr>window := Some (new_window s1 desc)\<rparr>) = (b2, s2)"
      by (cases "sdl_create (s1\<lparr>window := Some (new_window s1 desc)\<rparr>)")
    show ?thesis
    proof (cases b2)
      case False
      with c1 b1 c2 show ?thesis
        by (simp add: reconfigure_real_window [OF nf] reconfigure_real_window [OF f]
            sdl_create_upd w wu del: state_sdl2.update_convs)
    next
      case b2: True
      have r: "new_renderer (s2\<lparr>sdl_events := X\<rparr>) desc = new_renderer s2 desc"
        by (simp add: new_renderer_def)
      have ru: "s2\<lparr>sdl_events := X, renderer := Some (new_renderer s2 desc)\<rparr> =
          s2\<lparr>renderer := Some (new_renderer s2 desc)\<rparr>\<lparr>sdl_events := X\<rparr>"
        by simp
      obtain b3 s3 where c3:
        "recreate_textures (s2\<lparr>renderer := Some (new_renderer s2 desc)\<rparr>) desc = (b3, s3)"
        by (cases "recreate_textures (s2\<lparr>renderer := Some (new_renderer s2 desc)\<rparr>) desc")
      from c1 b1 c2 b2 c3 show ?thesis
        by (cases b3)
          (simp_all add: reconfigure_real_window [OF nf] reconfigure_real_window [OF f]
            sdl_create_upd w wu r ru recreate_textures_upd del: state_sdl2.update_convs)
    qed
  qed
qed


lemma display_frame_upd:
  "display_frame (s\<lparr>sdl_events := X\<rparr>) frame = (display_frame s frame)\<lparr>sdl_events := X\<rparr>"
  by (simp add: display_frame_def split: option.split)

lemma process_key_upd:
  "display_sdl2_process_key (s\<lparr>sdl_events := X\<rparr>) key =
     apsnd (\<lambda>t. t\<lparr>sdl_events := X\<rparr>) (display_sdl2_process_key s key)"
  by (simp add: display_sdl2_process_key_def)

lemma process_message_upd:
  "process_message (s\<lparr>sdl_events := X\<rparr>) text = (process_message s text)\<lparr>sdl_events := X\<rparr>"
proof (cases "take (length ''win-title '') text = ''win-title ''")
  case True
  then show ?thesis by (simp add: process_message_def)
next
  case nt: False
  show ?thesis
  proof (cases "sscanf_d text")
    case None
    with nt show ?thesis by (simp add: process_message_def)
  next
    case (Some key)
    obtain b s1 where k: "display_sdl2_process_key s key = (b, s1)"
      by (cases "display_sdl2_process_key s key")
    from nt Some k show ?thesis
      by (cases b) (simp_all add: process_message_def process_key_upd)
  qed
qed

lemma process_messages_upd:
  "process_messages ms (s\<lparr>sdl_events := X\<rparr>) = (process_messages ms s)\<lparr>sdl_events := X\<rparr>"
  by (induction ms arbitrary: s) (simp_all add: process_message_upd)

lemma handle_event_upd:
  "handle_event c ev (s\<lparr>sdl_events := X\<rparr>) = (handle_event c ev s)\<lparr>sdl_events := X\<rparr>"
proof (cases ev)
  case (sdl_user_reconfigure_event desc)
  obtain r s1 where k: "display_sdl2_reconfigure_real c s desc = (r, s1)"
    by (cases "display_sdl2_reconfigure_real c s desc")
  with sdl_user_reconfigure_event show ?thesis
    by (simp add: handle_event_def reconfigure_real_upd)
next
  case (sdl_user_new_frame_event frame)
  then show ?thesis by (simp add: handle_event_def display_frame_upd)
next
  case sdl_user_new_message_event
  then show ?thesis by (simp add: handle_event_def process_messages_upd)
next
  case (SDL_KEYDOWN keysym)
  obtain b s1 where k:
    "display_sdl2_process_key s (translate_sdl_key_to_ug c keysym) = (b, s1)"
    by (cases "display_sdl2_process_key s (translate_sdl_key_to_ug c keysym)")
  from k SDL_KEYDOWN show ?thesis
    by (cases b) (simp_all add: handle_event_def Let_def process_key_upd)
next
  case (SDL_WINDOWEVENT wev d1 d2)
  then show ?thesis by (simp add: handle_event_def display_frame_upd)
next
  case SDL_QUIT
  then show ?thesis by (simp add: handle_event_def)
next
  case SDL_OTHER_EVENT
  then show ?thesis by (simp add: handle_event_def)
qed

lemma sdl_create_exit: "should_exit_sdl (snd (sdl_create s)) = should_exit_sdl s"
  by (simp add: sdl_create_def split: list.split)

lemma create_buffers_exit:
  "should_exit_sdl (snd (create_buffers n desc s)) = should_exit_sdl s"
proof (induction n arbitrary: s)
  case 0
  show ?case by simp
next
  case (Suc n)
  obtain b s1 where c: "sdl_create s = (b, s1)" by (cases "sdl_create s")
  from c have "should_exit_sdl s1 = should_exit_sdl s" using sdl_create_exit [of s] by simp
  with c Suc.IH show ?case by (cases b) (simp_all add: push_new_buffer_def)
qed

lemma recreate_textures_exit:
  "should_exit_sdl (snd (recreate_textures s desc)) = should_exit_sdl s"
  by (simp add: recreate_textures_def create_buffers_exit cleanup_frames_def)

lemma recreate_textures_exitD:
  "recreate_textures s desc = (b, s1) \<Longrightarrow> should_exit_sdl s1 = should_exit_sdl s"
  using recreate_textures_exit [of s desc] by simp

lemma sdl_create_exitD: "sdl_create s = (b, s1) \<Longrightarrow> should_exit_sdl s1 = should_exit_sdl s"
  using sdl_create_exit [of s] by simp

lemma reconfigure_real_exit:
  "should_exit_sdl (snd (display_sdl2_reconfigure_real c s desc)) = should_exit_sdl s"
proof (cases "fixed_size s \<and> window s \<noteq> None")
  case True
  obtain ok s1 where r: "recreate_textures
      (SDL_RenderSetLogicalSize s (int (width desc)) (int (height desc))) desc = (ok, s1)"
    by (cases "recreate_textures
      (SDL_RenderSetLogicalSize s (int (width desc)) (int (height desc))) desc")
  from recreate_textures_exitD [OF r] have "should_exit_sdl s1 = should_exit_sdl s"
    by (simp add: SDL_RenderSetLogicalSize_def)
  with r show ?thesis by (simp add: reconfigure_real_fixed [OF True])
next
  case nf: False
  obtain b1 s1 where c1: "sdl_create s = (b1, s1)" by (cases "sdl_create s")
  have e1: "should_exit_sdl s1 = should_exit_sdl s" by (rule sdl_create_exitD [OF c1])
  show ?thesis
  proof (cases b1)
    case False
    with c1 e1 show ?thesis
      by (simp add: reconfigure_real_window [OF nf])
  next
    case b1: True
    obtain b2 s2 where c2: "sdl_create (s1\<lparr>window := Some (new_window s1 desc)\<rparr>) = (b2, s2)"
      by (cases "sdl_create (s1\<lparr>window := Some (new_window s1 desc)\<rparr>)")
    have e2: "should_exit_sdl s2 = should_exit_sdl s" using sdl_create_exitD [OF c2] e1 by simp
    show ?thesis
    proof (cases b2)
      case False
      with c1 b1 c2 e2 show ?thesis
        by (simp add: reconfigure_real_window [OF nf])
    next
      case b2: True
      obtain b3 s3 where c3:
        "recreate_textures (s2\<lparr>renderer := Some (new_renderer s2 desc)\<rparr>) desc = (b3, s3)"
        by (cases "recreate_textures (s2\<lparr>renderer := Some (new_renderer s2 desc)\<rparr>) desc")
      have e3: "should_exit_sdl s3 = should_exit_sdl s"
        using recreate_textures_exitD [OF c3] e2 by simp
      with c1 b1 c2 b2 c3 show ?thesis
        by (cases b3) (simp_all add: reconfigure_real_window [OF nf])
    qed
  qed
qed


lemma display_frame_exit: "should_exit_sdl (display_frame s frame) = should_exit_sdl s"
  by (simp add: display_frame_def split: option.split)

lemma process_key_exitD:
  "display_sdl2_process_key s key = (b, s1) \<Longrightarrow> should_exit_sdl s1 = should_exit_sdl s"
  by (auto simp: display_sdl2_process_key_def split: if_splits)

lemma process_message_exit: "should_exit_sdl (process_message s text) = should_exit_sdl s"
proof (cases "take (length ''win-title '') text = ''win-title ''")
  case True
  then show ?thesis by (simp add: process_message_def)
next
  case nt: False
  show ?thesis
  proof (cases "sscanf_d text")
    case None
    with nt show ?thesis by (simp add: process_message_def)
  next
    case (Some key)
    obtain b s1 where k: "display_sdl2_process_key s key = (b, s1)"
      by (cases "display_sdl2_process_key s key")
    from process_key_exitD [OF k] nt Some k show ?thesis
      by (cases b) (simp_all add: process_message_def)
  qed
qed

lemma process_messages_exit: "should_exit_sdl (process_messages ms s) = should_exit_sdl s"
  by (induction ms arbitrary: s) (simp_all add: process_message_exit)

lemma handle_event_exit:
  assumes "ev \<noteq> sdl_user_new_frame_event None"
  shows "should_exit_sdl (handle_event c ev s) = should_exit_sdl s"
proof (cases ev)
  case (sdl_user_reconfigure_event desc)
  obtain r s1 where k: "display_sdl2_reconfigure_real c s desc = (r, s1)"
    by (cases "display_sdl2_reconfigure_real c s desc")
  with reconfigure_real_exit [of c s desc] sdl_user_reconfigure_event show ?thesis
    by (simp add: handle_event_def)
next
  case (sdl_user_new_frame_event frame)
  with assms show ?thesis by (simp add: handle_event_def display_frame_exit)
next
  case (SDL_KEYDOWN keysym)
  obtain b s1 where k:
    "display_sdl2_process_key s (translate_sdl_key_to_ug c keysym) = (b, s1)"
    by (cases "display_sdl2_process_key s (translate_sdl_key_to_ug c keysym)")
  from process_key_exitD [OF k] k SDL_KEYDOWN show ?thesis
    by (cases b) (simp_all add: handle_event_def Let_def)
qed (simp_all add: handle_event_def display_frame_exit process_messages_exit)

lemma handle_sentinel:
  "handle_event c (sdl_user_new_frame_event None) s = s\<lparr>should_exit_sdl := True\<rparr>"
  by (simp add: handle_event_def)

lemma event_loop_stopped: "should_exit_sdl s \<Longrightarrow> event_loop c s = s"
  by (simp add: event_loop.simps)

lemma event_loop_empty: "sdl_events s = [] \<Longrightarrow> event_loop c s = s"
  by (simp add: event_loop.simps)

lemma event_loop_step:
  "\<not> should_exit_sdl s \<Longrightarrow> sdl_events s = ev # evs \<Longrightarrow>
   event_loop c s = event_loop c (handle_event c ev (s\<lparr>sdl_events := evs\<rparr>))"
  by (subst event_loop.simps) simp

lemma event_loop_no_sentinel:
  "\<not> should_exit_sdl s \<Longrightarrow> sdl_user_new_frame_event None \<notin> set (sdl_events s) \<Longrightarrow>
   \<not> should_exit_sdl (event_loop c s) \<and> sdl_events (event_loop c s) = []"
proof (induction "sdl_events s" arbitrary: s)
  case Nil
  then show ?case by (simp add: event_loop_empty)
next
  case (Cons ev evs)
  let ?s1 = "handle_event c ev (s\<lparr>sdl_events := evs\<rparr>)"
  from Cons.hyps(2) have ev: "sdl_events s = ev # evs" by simp
  from Cons.prems(2) ev have ne: "ev \<noteq> sdl_user_new_frame_event None"
    and ns: "sdl_user_new_frame_event None \<notin> set evs" by auto
  have e1: "sdl_events ?s1 = evs" by (simp add: handle_event_events)
  have x1: "\<not> should_exit_sdl ?s1" using Cons.prems(1) by (simp add: handle_event_exit [OF ne])
  have "\<not> should_exit_sdl (event_loop c ?s1) \<and> sdl_events (event_loop c ?s1) = []"
    using Cons.hyps(1) [of ?s1] e1 x1 ns by simp
  then show ?case by (simp add: event_loop_step [OF Cons.prems(1) ev])
qed

lemma event_loop_append:
  "\<not> should_exit_sdl s \<Longrightarrow> sdl_user_new_frame_event None \<notin> set pre \<Longrightarrow>
   event_loop c (s\<lparr>sdl_events := pre @ post\<rparr>) =
   event_loop c ((event_loop c (s\<lparr>sdl_events := pre\<rparr>))\<lparr>sdl_events := post\<rparr>)"
proof (induction pre arbitrary: s)
  case Nil
  then show ?case by (simp add: event_loop_empty)
next
  case (Cons ev pre)
  let ?s1 = "handle_event c ev (s\<lparr>sdl_events := []\<rparr>)"
  from Cons.prems(2) have ne: "ev \<noteq> sdl_user_new_frame_event None"
    and ns: "sdl_user_new_frame_event None \<notin> set pre" by auto
  have x1: "\<not> should_exit_sdl ?s1" using Cons.prems(1) by (simp add: handle_event_exit [OF ne])
  have st: "event_loop c (s\<lparr>sdl_events := ev # evs\<rparr>) =
      event_loop c (?s1\<lparr>sdl_events := evs\<rparr>)" for evs
  proof -
    have "event_loop c (s\<lparr>sdl_events := ev # evs\<rparr>) =
        event_loop c (handle_event c ev (s\<lparr>sdl_events := ev # evs\<rparr>\<lparr>sdl_events := evs\<rparr>))"
      by (rule event_loop_step) (use Cons.prems(1) in simp_all)
    then show ?thesis by (simp add: handle_event_upd)
  qed
  have a: "event_loop c (s\<lparr>sdl_events := (ev # pre) @ post\<rparr>) =
      event_loop c (?s1\<lparr>sdl_events := pre @ post\<rparr>)"
    using st [of "pre @ post"] by simp
  have b: "event_loop c (s\<lparr>sdl_events := ev # pre\<rparr>) = event_loop c (?s1\<lparr>sdl_events := pre\<rparr>)"
    by (rule st)
  show ?case using Cons.IH [OF x1 ns] a b by simp
qed


section \<open>Reconfiguration\<close>

lemma push_new_buffer_pool:
  "pool_matches desc s \<Longrightarrow> pool_matches desc (push_new_buffer desc s)"
  by (simp add: pool_matches_def push_new_buffer_def list_all_iff matches_desc_def
      vf_alloc_desc_def)

lemma sdl_create_pool:
  "sdl_create s = (b, s1) \<Longrightarrow>
   free_frame_queue s1 = free_frame_queue s \<and> frames s1 = frames s
   \<and> last_frame s1 = last_frame s \<and> current_display_desc s1 = current_display_desc s
   \<and> (\<not> b \<longrightarrow> False \<in> set (sdl_results s))
   \<and> set (sdl_results s1) \<subseteq> set (sdl_results s)"
  by (auto simp: sdl_create_def split: list.splits)

lemma sdl_create_pool_matches:
  "sdl_create s = (b, s1) \<Longrightarrow> pool_matches desc s1 = pool_matches desc s"
  using sdl_create_pool [of s b s1] by (simp add: pool_matches_def)

lemma create_buffers_pool:
  "create_buffers n desc s = (ok, s') \<Longrightarrow> pool_matches desc s \<Longrightarrow>
   pool_matches desc s'
   \<and> (ok \<longrightarrow> length (free_frame_queue s') = length (free_frame_queue s) + n)
   \<and> (\<not> ok \<longrightarrow> length (free_frame_queue s') < length (free_frame_queue s) + n
               \<and> False \<in> set (sdl_results s))
   \<and> current_display_desc s' = current_display_desc s"
proof (induction n arbitrary: s)
  case 0
  then show ?case by simp
next
  case (Suc n)
  obtain b s1 where c: "sdl_create s = (b, s1)" by (cases "sdl_create s")
  note p = sdl_create_pool [OF c]
  have m1: "pool_matches desc s1" using Suc.prems(2) sdl_create_pool_matches [OF c] by simp
  show ?case
  proof (cases b)
    case False
    with c Suc.prems(1) have "ok = False" "s' = s1" by simp_all
    with p m1 False show ?thesis by simp
  next
    case True
    with c Suc.prems(1) have r: "create_buffers n desc (push_new_buffer desc s1) = (ok, s')"
      by simp
    have m2: "pool_matches desc (push_new_buffer desc s1)" by (rule push_new_buffer_pool [OF m1])
    have l: "length (free_frame_queue (push_new_buffer desc s1)) = Suc (length (free_frame_queue s))"
      "sdl_results (push_new_buffer desc s1) = sdl_results s1"
      "current_display_desc (push_new_buffer desc s1) = current_display_desc s"
      using p by (simp_all add: push_new_buffer_def)
    from Suc.IH [OF r m2] l p show ?thesis by auto
  qed
qed

lemma recreate_textures_pool:
  assumes "recreate_textures s desc = (ok, s')"
  shows "pool_matches desc s'
   \<and> (ok \<longrightarrow> length (free_frame_queue s') = BUFFER_COUNT)
   \<and> (\<not> ok \<longrightarrow> length (free_frame_queue s') < BUFFER_COUNT \<and> False \<in> set (sdl_results s))
   \<and> current_display_desc s' = current_display_desc s"
proof -
  have m: "pool_matches desc (cleanup_frames s)"
    by (simp add: pool_matches_def cleanup_frames_def)
  from assms have r: "create_buffers BUFFER_COUNT desc (cleanup_frames s) = (ok, s')"
    by (simp add: recreate_textures_def)
  from create_buffers_pool [OF r m] show ?thesis by (simp add: cleanup_frames_def)
qed


lemma reconfigure_real_outcome_fixed:
  assumes "display_sdl2_reconfigure_real c s desc = (r, s')"
    and fx: "fixed_size s \<and> window s \<noteq> None"
  shows "(r = 1 \<and> length (free_frame_queue s') = BUFFER_COUNT \<and> pool_matches desc s'
          \<or> r = 0 \<and> False \<in> set (sdl_results s)
             \<and> length (free_frame_queue s') < BUFFER_COUNT \<and> pool_matches desc s')
         \<and> current_display_desc s' = current_display_desc s"
proof -
  let ?s0 = "SDL_RenderSetLogicalSize s (int (width desc)) (int (height desc))"
  obtain ok s1 where rt: "recreate_textures ?s0 desc = (ok, s1)"
    by (cases "recreate_textures ?s0 desc")
  have res: "sdl_results ?s0 = sdl_results s" "current_display_desc ?s0 = current_display_desc s"
    by (simp_all add: SDL_RenderSetLogicalSize_def)
  from assms(1) rt have rs: "r = (if ok then 1 else 0)" "s' = s1"
    by (simp_all add: reconfigure_real_fixed [OF fx])
  from recreate_textures_pool [OF rt] res rs show ?thesis by (cases ok) simp_all
qed

lemma reconfigure_real_outcome_window:
  assumes "display_sdl2_reconfigure_real c s desc = (r, s')"
    and nf: "\<not> (fixed_size s \<and> window s \<noteq> None)"
  shows "r = TRUE c \<and> length (free_frame_queue s') = BUFFER_COUNT \<and> pool_matches desc s'
           \<and> current_display_desc s' = desc
       \<or> r = FALSE c \<and> False \<in> set (sdl_results s)
          \<and> current_display_desc s' = current_display_desc s
          \<and> (free_frame_queue s' = free_frame_queue s \<and> frames s' = frames s
               \<and> last_frame s' = last_frame s
             \<or> length (free_frame_queue s') < BUFFER_COUNT \<and> pool_matches desc s')"
proof -
  obtain b1 s1 where c1: "sdl_create s = (b1, s1)" by (cases "sdl_create s")
  note p1 = sdl_create_pool [OF c1]
  show ?thesis
  proof (cases b1)
    case False
    with assms(1) c1 have "r = FALSE c" "s' = s1\<lparr>window := None\<rparr>"
      by (simp_all add: reconfigure_real_window [OF nf])
    with p1 False show ?thesis by simp
  next
    case b1: True
    let ?s1 = "s1\<lparr>window := Some (new_window s1 desc)\<rparr>"
    obtain b2 s2 where c2: "sdl_create ?s1 = (b2, s2)" by (cases "sdl_create ?s1")
    note p2 = sdl_create_pool [OF c2]
    show ?thesis
    proof (cases b2)
      case False
      with assms(1) c1 b1 c2 have "r = FALSE c" "s' = s2\<lparr>renderer := None\<rparr>"
        by (simp_all add: reconfigure_real_window [OF nf])
      with p1 p2 False show ?thesis by auto
    next
      case b2: True
      let ?s2 = "s2\<lparr>renderer := Some (new_renderer s2 desc)\<rparr>"
      obtain b3 s3 where c3: "recreate_textures ?s2 desc = (b3, s3)"
        by (cases "recreate_textures ?s2 desc")
      note p3 = recreate_textures_pool [OF c3]
      have sub: "set (sdl_results ?s2) \<subseteq> set (sdl_results s)" using p1 p2 by auto
      have cd: "current_display_desc ?s2 = current_display_desc s" using p1 p2 by simp
      show ?thesis
      proof (cases b3)
        case False
        with assms(1) c1 b1 c2 b2 c3 have "r = FALSE c" "s' = s3"
          by (simp_all add: reconfigure_real_window [OF nf])
        with p3 False sub cd show ?thesis by auto
      next
        case True
        with assms(1) c1 b1 c2 b2 c3
        have "r = TRUE c" "s' = s3\<lparr>current_display_desc := desc\<rparr>"
          by (simp_all add: reconfigure_real_window [OF nf])
        with p3 True show ?thesis by (simp add: pool_matches_def)
      qed
    qed
  qed
qed


text \<open>
  C2, as the code has it (\<^verbatim>\<open>FALSE\<close> being \<open>0\<close> and \<^verbatim>\<open>TRUE\<close> not). A reconfiguration
  that returns success leaves exactly \<open>BUFFER_COUNT\<close> buffers in the free pool, all
  allocated for the new descriptor. One that returns failure leaves the pool unchanged
  (no window or no renderer could be created) or leaves fewer than \<open>BUFFER_COUNT\<close>
  buffers in it, none or one, allocated for the new descriptor: the buffers created
  before the texture that failed stay in the queue. Either way the pool never mixes
  descriptors.
\<close>

theorem reconfigure_real_pool:
  assumes "display_sdl2_reconfigure_real c s desc = (r, s')"
    and "FALSE c = 0" and "TRUE c \<noteq> 0"
  shows "(r \<noteq> 0 \<longrightarrow> length (free_frame_queue s') = BUFFER_COUNT \<and> pool_matches desc s')
       \<and> (r = 0 \<longrightarrow>
            free_frame_queue s' = free_frame_queue s \<and> frames s' = frames s
            \<or> length (free_frame_queue s') < BUFFER_COUNT \<and> pool_matches desc s')"
proof (cases "fixed_size s \<and> window s \<noteq> None")
  case True
  from reconfigure_real_outcome_fixed [OF assms(1) True] show ?thesis by auto
next
  case False
  from reconfigure_real_outcome_window [OF assms(1) False] assms(2,3) show ?thesis by auto
qed

theorem reconfigure_real_pool_witness:
  "FALSE ug_headers_std = 0 \<and> TRUE ug_headers_std \<noteq> 0
   \<and> fst (display_sdl2_reconfigure_real ug_headers_std started example_desc_720) \<noteq> 0
   \<and> length (free_frame_queue
        (snd (display_sdl2_reconfigure_real ug_headers_std started example_desc_720))) = BUFFER_COUNT
   \<and> pool_matches example_desc_720
        (snd (display_sdl2_reconfigure_real ug_headers_std started example_desc_720))"
proof -
  have r: "fst (display_sdl2_reconfigure_real ug_headers_std started example_desc_720) \<noteq> 0"
    by (simp add: reconfigure_real_window started_more sdl_create_ok recreate_textures_ok
        std_fields)
  have h: "FALSE ug_headers_std = 0" "TRUE ug_headers_std \<noteq> 0" by (simp_all add: std_fields)
  from reconfigure_real_pool [OF prod.collapse [symmetric] h] r h show ?thesis by blast
qed

text \<open>
  C2 as it is stated fails: the window, the renderer and the first texture are created,
  the second texture is not. The call returns \<open>0\<close> and the free pool, which held the
  buffers \<open>1\<close> and \<open>0\<close>, holds the one new buffer \<open>2\<close>: neither unchanged nor empty.
\<close>

theorem reconfigure_partial_pool:
  "fst (display_sdl2_reconfigure_real ug_headers_std
         (started\<lparr>sdl_results := [True, True, True, False]\<rparr>) example_desc_720) = 0
   \<and> free_frame_queue (snd (display_sdl2_reconfigure_real ug_headers_std
         (started\<lparr>sdl_results := [True, True, True, False]\<rparr>) example_desc_720)) = [2]
   \<and> free_frame_queue (started\<lparr>sdl_results := [True, True, True, False]\<rparr>) = [1, 0]"
  by (simp add: reconfigure_real_window started_fields started_more sdl_create_def
      recreate_textures_def BUFFER_COUNT_def numeral_2_eq_2 cleanup_frames_def
      push_new_buffer_def std_fields)

text \<open>
  C7 fails on the code. A display started with \<^verbatim>\<open>fixed_size\<close> has its window after the
  splash screen (1920x1080 UYVY). A reconfiguration to 1280x720 RGB then takes the early
  return of \<^verbatim>\<open>display_sdl2_reconfigure_real\<close>: it returns \<open>1\<close>, and
  \<open>current_display_desc\<close> is still the descriptor of the splash screen.
\<close>

theorem fixed_size_keeps_old_desc:
  "map_option fst (projr_opt
      (display_sdl2_reconfigure ug_headers_std started_fixed example_desc_720)) = Some 1
   \<and> map_option (\<lambda>r. current_display_desc (snd r)) (projr_opt
      (display_sdl2_reconfigure ug_headers_std started_fixed example_desc_720))
     = Some example_desc
   \<and> example_desc \<noteq> example_desc_720"
  by (simp add: display_sdl2_reconfigure_def reconfigure_request_def reconfigure_return_def
      event_loop_step [where ev = "sdl_user_reconfigure_event example_desc_720" and evs = "[]"]
      event_loop_empty handle_event_def reconfigure_real_fixed started_fixed_fields
      SDL_RenderSetLogicalSize_def recreate_textures_ok cleanup_frames_def push_new_buffer_def
      projr_opt_def example_desc_def example_desc_720_def)


section \<open>The shutdown sentinel\<close>

text \<open>
  C6, as the code has it. A new-frame event with a \<^verbatim>\<open>NULL\<close> frame stops the loop when
  the loop reaches it: the events queued before it (\<open>pre\<close>) are handled first, in
  order and exactly as without the sentinel, new-frame events among them; the loop then
  sets \<open>should_exit_sdl\<close>, and the events queued after it (\<open>post\<close>) are never handled.
  Submitting \<^verbatim>\<open>NULL\<close> in any mode but discard posts the sentinel at the end of the queue.
\<close>

theorem sentinel_stops_loop:
  assumes "\<not> should_exit_sdl s"
    and "sdl_events s = pre @ sdl_user_new_frame_event None # post"
    and "sdl_user_new_frame_event None \<notin> set pre"
  shows "event_loop c s =
       (event_loop c (s\<lparr>sdl_events := pre\<rparr>))\<lparr>sdl_events := post, should_exit_sdl := True\<rparr>
     \<and> should_exit_sdl (event_loop c s)
     \<and> sdl_events (event_loop c s) = post
     \<and> (timeout_ns \<noteq> PUTF_DISCARD c \<longrightarrow>
          display_sdl2_putf c s0 None timeout_ns =
            Inr (0, s0\<lparr>sdl_events := sdl_events s0 @ [sdl_user_new_frame_event None]\<rparr>))"
proof -
  let ?s1 = "event_loop c (s\<lparr>sdl_events := pre\<rparr>)"
  have s: "s = s\<lparr>sdl_events := pre @ sdl_user_new_frame_event None # post\<rparr>"
    using assms(2) by (cases s) simp
  have n: "\<not> should_exit_sdl ?s1"
    using event_loop_no_sentinel [of "s\<lparr>sdl_events := pre\<rparr>" c] assms(1,3) by simp
  have "event_loop c s =
      event_loop c (s\<lparr>sdl_events := pre @ sdl_user_new_frame_event None # post\<rparr>)"
    using s by simp
  also have "\<dots> = event_loop c (?s1\<lparr>sdl_events := sdl_user_new_frame_event None # post\<rparr>)"
    by (rule event_loop_append [OF assms(1,3)])
  also have "\<dots> = event_loop c (handle_event c (sdl_user_new_frame_event None)
      (?s1\<lparr>sdl_events := sdl_user_new_frame_event None # post\<rparr>\<lparr>sdl_events := post\<rparr>))"
    by (rule event_loop_step) (use n in simp_all)
  also have "\<dots> = ?s1\<lparr>sdl_events := post, should_exit_sdl := True\<rparr>"
    by (simp add: handle_sentinel event_loop_stopped)
  finally have loop: "event_loop c s = ?s1\<lparr>sdl_events := post, should_exit_sdl := True\<rparr>" .
  have post: "timeout_ns \<noteq> PUTF_DISCARD c \<longrightarrow>
      display_sdl2_putf c s0 None timeout_ns =
        Inr (0, s0\<lparr>sdl_events := sdl_events s0 @ [sdl_user_new_frame_event None]\<rparr>)"
    by (simp add: display_sdl2_putf_def)
  from loop post show ?thesis by simp
qed

theorem sentinel_stops_loop_witness:
  "\<not> should_exit_sdl
       (started\<lparr>sdl_events := [SDL_QUIT] @ sdl_user_new_frame_event None # [SDL_QUIT]\<rparr>)
   \<and> sdl_events (started\<lparr>sdl_events := [SDL_QUIT] @ sdl_user_new_frame_event None # [SDL_QUIT]\<rparr>)
       = [SDL_QUIT] @ sdl_user_new_frame_event None # [SDL_QUIT]
   \<and> sdl_user_new_frame_event None \<notin> set [SDL_QUIT]
   \<and> event_loop ug_headers_std
        (started\<lparr>sdl_events := [SDL_QUIT] @ sdl_user_new_frame_event None # [SDL_QUIT]\<rparr>)
     = started\<lparr>exit_requested := True, sdl_events := [SDL_QUIT], should_exit_sdl := True\<rparr>"
proof -
  let ?s = "started\<lparr>sdl_events := [SDL_QUIT] @ sdl_user_new_frame_event None # [SDL_QUIT]\<rparr>"
  have h: "\<not> should_exit_sdl ?s"
    "sdl_events ?s = [SDL_QUIT] @ sdl_user_new_frame_event None # [SDL_QUIT]"
    "sdl_user_new_frame_event None \<notin> set [SDL_QUIT]"
    by (simp_all add: started_fields)
  have "event_loop ug_headers_std (started\<lparr>sdl_events := [SDL_QUIT]\<rparr>) =
      started\<lparr>exit_requested := True, sdl_events := []\<rparr>"
    by (simp add: event_loop_step [where ev = SDL_QUIT and evs = "[]"] started_fields
        handle_event_def event_loop_empty)
  with sentinel_stops_loop [OF h, of ug_headers_std] h show ?thesis by simp
qed

text \<open>
  C6 as it is stated fails. The producer submits buffer \<open>1\<close>, then the sentinel: the
  sentinel is posted behind the new-frame event, \<open>last_frame\<close> being buffer \<open>0\<close>. The
  loop then displays buffer \<open>1\<close> (it becomes \<open>last_frame\<close> and returns to the free
  queue) before it stops: a new-frame event queued before the sentinel is handled after
  the sentinel was posted.
\<close>

theorem sentinel_counterexample:
  "map_option (\<lambda>sys. (sdl_events (fst sys), last_frame (fst sys), free_frame_queue (fst sys)))
     (run_actions ug_headers_std
        [Acquire, Submit (Some 1) (PUTF_BLOCKING ug_headers_std), Submit None 0] (started, []))
   = Some ([sdl_user_new_frame_event (Some 1), sdl_user_new_frame_event None], Some 0, [0])
   \<and> map_option
       (\<lambda>sys. (last_frame (event_loop ug_headers_std (fst sys)),
               free_frame_queue (event_loop ug_headers_std (fst sys)),
               should_exit_sdl (event_loop ug_headers_std (fst sys))))
     (run_actions ug_headers_std
        [Acquire, Submit (Some 1) (PUTF_BLOCKING ug_headers_std), Submit None 0] (started, []))
   = Some (Some 1, [0, 1], True)"
  by (simp add: step_def display_sdl2_getf_def display_sdl2_putf_def started_fields std_fields
      event_loop_step [where ev = "sdl_user_new_frame_event (Some 1)"
        and evs = "[sdl_user_new_frame_event None]"]
      event_loop_step [where ev = "sdl_user_new_frame_event None" and evs = "[]"]
      event_loop_stopped handle_event_def display_frame_def)

section \<open>The deinterlace key\<close>

lemma sscanf_d_100: "sscanf_d ''100'' = Some 100"
  by (simp add: sscanf_d_def isspace_def isdigit_def)

lemma process_message_100:
  "process_message s ''100'' =
     s\<lparr>deinterlace := (if deinterlace s = deint_off then deint_on else deint_off),
       responses := responses s @ [(RESPONSE_OK, None)]\<rparr>"
  by (simp add: process_message_def sscanf_d_100 display_sdl2_process_key_def)

text \<open>
  No function of the display sets the policy to force: the initialisation sets it to on
  for the option \<^verbatim>\<open>d\<close> and to off for \<^verbatim>\<open>dforce\<close>, the key \<^verbatim>\<open>'d'\<close> switches between
  off and on, and nothing else assigns it. So the policy of a reachable state is off or on.
\<close>

lemma init_option_deint:
  "init_option tok s = Init_state s1 \<Longrightarrow> deinterlace s \<noteq> deint_force \<Longrightarrow>
   deinterlace s1 \<noteq> deint_force"
  by (auto simp: init_option_def split: if_splits option.splits)

lemma init_options_deint:
  "init_options toks s = Init_state s1 \<Longrightarrow> deinterlace s \<noteq> deint_force \<Longrightarrow>
   deinterlace s1 \<noteq> deint_force"
proof (induction toks arbitrary: s)
  case Nil
  then show ?case by simp
next
  case (Cons tok toks)
  then show ?case
    by (cases "init_option tok s") (auto dest: init_option_deint)
qed

lemma init_deint:
  "display_sdl2_init a i v p fmt = Init_state s \<Longrightarrow> deinterlace s \<noteq> deint_force"
proof -
  assume r: "display_sdl2_init a i v p fmt = Init_state s"
  have d: "deinterlace (state_sdl2_new p) \<noteq> deint_force" by (simp add: state_sdl2_new_def)
  from r have "init_options (strtok_colon [] (case fmt of None \<Rightarrow> [] | Some str \<Rightarrow> str))
                  (state_sdl2_new p) = Init_state s"
    by (auto simp: display_sdl2_init_def split: if_splits init_result.splits)
  from init_options_deint [OF this d] show ?thesis .
qed

lemma sdl_create_deint: "deinterlace (snd (sdl_create s)) = deinterlace s"
  by (simp add: sdl_create_def split: list.split)

lemma create_buffers_deint:
  "deinterlace (snd (create_buffers n desc s)) = deinterlace s"
proof (induction n arbitrary: s)
  case 0
  show ?case by simp
next
  case (Suc n)
  obtain b s1 where c: "sdl_create s = (b, s1)" by (cases "sdl_create s")
  from c have "deinterlace s1 = deinterlace s" using sdl_create_deint [of s] by simp
  with c Suc.IH show ?case by (cases b) (simp_all add: push_new_buffer_def)
qed

lemma recreate_textures_deint:
  "deinterlace (snd (recreate_textures s desc)) = deinterlace s"
  by (simp add: recreate_textures_def create_buffers_deint cleanup_frames_def)

lemma recreate_textures_deintD:
  "recreate_textures s desc = (b, s1) \<Longrightarrow> deinterlace s1 = deinterlace s"
  using recreate_textures_deint [of s desc] by simp

lemma sdl_create_deintD: "sdl_create s = (b, s1) \<Longrightarrow> deinterlace s1 = deinterlace s"
  using sdl_create_deint [of s] by simp

lemma reconfigure_real_deint:
  "deinterlace (snd (display_sdl2_reconfigure_real c s desc)) = deinterlace s"
proof (cases "fixed_size s \<and> window s \<noteq> None")
  case True
  obtain ok s1 where r: "recreate_textures
      (SDL_RenderSetLogicalSize s (int (width desc)) (int (height desc))) desc = (ok, s1)"
    by (cases "recreate_textures
      (SDL_RenderSetLogicalSize s (int (width desc)) (int (height desc))) desc")
  from recreate_textures_deintD [OF r] have "deinterlace s1 = deinterlace s"
    by (simp add: SDL_RenderSetLogicalSize_def)
  with r show ?thesis by (simp add: reconfigure_real_fixed [OF True])
next
  case nf: False
  obtain b1 s1 where c1: "sdl_create s = (b1, s1)" by (cases "sdl_create s")
  have e1: "deinterlace s1 = deinterlace s" by (rule sdl_create_deintD [OF c1])
  show ?thesis
  proof (cases b1)
    case False
    with c1 e1 show ?thesis
      by (simp add: reconfigure_real_window [OF nf])
  next
    case b1: True
    obtain b2 s2 where c2: "sdl_create (s1\<lparr>window := Some (new_window s1 desc)\<rparr>) = (b2, s2)"
      by (cases "sdl_create (s1\<lparr>window := Some (new_window s1 desc)\<rparr>)")
    have e2: "deinterlace s2 = deinterlace s" using sdl_create_deintD [OF c2] e1 by simp
    show ?thesis
    proof (cases b2)
      case False
      with c1 b1 c2 e2 show ?thesis
        by (simp add: reconfigure_real_window [OF nf])
    next
      case b2: True
      obtain b3 s3 where c3:
        "recreate_textures (s2\<lparr>renderer := Some (new_renderer s2 desc)\<rparr>) desc = (b3, s3)"
        by (cases "recreate_textures (s2\<lparr>renderer := Some (new_renderer s2 desc)\<rparr>) desc")
      have e3: "deinterlace s3 = deinterlace s"
        using recreate_textures_deintD [OF c3] e2 by simp
      with c1 b1 c2 b2 c3 show ?thesis
        by (cases b3) (simp_all add: reconfigure_real_window [OF nf])
    qed
  qed
qed


lemma display_frame_deint: "deinterlace (display_frame s frame) = deinterlace s"
  by (simp add: display_frame_def split: option.split)


lemma process_key_deintD:
  "display_sdl2_process_key s key = (b, s1) \<Longrightarrow> deinterlace s \<noteq> deint_force \<Longrightarrow>
   deinterlace s1 \<noteq> deint_force"
  by (auto simp: display_sdl2_process_key_def split: if_splits)

lemma process_message_deint:
  assumes "deinterlace s \<noteq> deint_force"
  shows "deinterlace (process_message s text) \<noteq> deint_force"
proof (cases "take (length ''win-title '') text = ''win-title ''")
  case True
  with assms show ?thesis by (simp add: process_message_def)
next
  case nt: False
  show ?thesis
  proof (cases "sscanf_d text")
    case None
    with nt assms show ?thesis by (simp add: process_message_def)
  next
    case (Some key)
    obtain b s1 where k: "display_sdl2_process_key s key = (b, s1)"
      by (cases "display_sdl2_process_key s key")
    from process_key_deintD [OF k assms] nt Some k show ?thesis
      by (cases b) (simp_all add: process_message_def)
  qed
qed

lemma process_messages_deint:
  "deinterlace s \<noteq> deint_force \<Longrightarrow> deinterlace (process_messages ms s) \<noteq> deint_force"
  by (induction ms arbitrary: s) (simp_all add: process_message_deint)

lemma handle_event_deint:
  assumes "deinterlace s \<noteq> deint_force"
  shows "deinterlace (handle_event c ev s) \<noteq> deint_force"
proof (cases ev)
  case (sdl_user_reconfigure_event desc)
  obtain r s1 where k: "display_sdl2_reconfigure_real c s desc = (r, s1)"
    by (cases "display_sdl2_reconfigure_real c s desc")
  with reconfigure_real_deint [of c s desc] sdl_user_reconfigure_event assms show ?thesis
    by (simp add: handle_event_def)
next
  case (sdl_user_new_frame_event frame)
  with assms show ?thesis by (simp add: handle_event_def display_frame_deint)
next
  case sdl_user_new_message_event
  with process_messages_deint [OF assms] show ?thesis by (simp add: handle_event_def)
next
  case (SDL_KEYDOWN keysym)
  obtain b s1 where k:
    "display_sdl2_process_key s (translate_sdl_key_to_ug c keysym) = (b, s1)"
    by (cases "display_sdl2_process_key s (translate_sdl_key_to_ug c keysym)")
  from process_key_deintD [OF k assms] k SDL_KEYDOWN assms show ?thesis
    by (cases b) (simp_all add: handle_event_def Let_def)
next
  case (SDL_WINDOWEVENT wev d1 d2)
  with assms show ?thesis by (simp add: handle_event_def display_frame_deint)
next
  case SDL_QUIT
  with assms show ?thesis by (simp add: handle_event_def)
next
  case SDL_OTHER_EVENT
  with assms show ?thesis by (simp add: handle_event_def)
qed

lemma event_loop_deint:
  "deinterlace s \<noteq> deint_force \<Longrightarrow> deinterlace (event_loop c s) \<noteq> deint_force"
proof (induction "sdl_events s" arbitrary: s)
  case Nil
  then show ?case by (simp add: event_loop_empty)
next
  case (Cons ev evs)
  show ?case
  proof (cases "should_exit_sdl s")
    case True
    with Cons.prems show ?thesis by (simp add: event_loop_stopped)
  next
    case False
    let ?s1 = "handle_event c ev (s\<lparr>sdl_events := evs\<rparr>)"
    from Cons.hyps(2) have ev: "sdl_events s = ev # evs" by simp
    have e1: "sdl_events ?s1 = evs" by (simp add: handle_event_events)
    have d1: "deinterlace ?s1 \<noteq> deint_force"
      using Cons.prems by (intro handle_event_deint) simp
    have "deinterlace (event_loop c ?s1) \<noteq> deint_force"
      using Cons.hyps(1) [of ?s1] e1 d1 by simp
    then show ?thesis by (simp add: event_loop_step [OF False ev])
  qed
qed

lemma loadSplashscreen_deint:
  assumes "loadSplashscreen c s d = Inr s'" and "deinterlace s \<noteq> deint_force"
  shows "deinterlace s' \<noteq> deint_force"
proof -
  obtain r s1 where k: "display_sdl2_reconfigure_real c s d = (r, s1)"
    by (cases "display_sdl2_reconfigure_real c s d")
  with reconfigure_real_deint [of c s d] have d1: "deinterlace s1 = deinterlace s" by simp
  from assms(1) k obtain b s2 where g: "display_sdl2_getf s1 = Inr (b, s2)"
    and s': "s' = display_frame s2 (Some b)"
    by (auto simp: loadSplashscreen_def split: sum.splits)
  from g have "deinterlace s2 = deinterlace s1"
    by (auto simp: display_sdl2_getf_def split: list.splits)
  with d1 s' assms(2) show ?thesis by (simp add: display_frame_deint)
qed

lemma reachable_deint: "reachable c s \<Longrightarrow> deinterlace s \<noteq> deint_force"
proof (induction rule: reachable.induct)
  case (init audio sdl_init_ok sdl_video_init_ok p fmt s)
  then show ?case by (rule init_deint)
next
  case (environment s evs rs pitch title ms)
  then show ?case by simp
next
  case (run s splash_desc s')
  from run.hyps(2) obtain s1 where
    l: "loadSplashscreen c (s\<lparr>should_exit_sdl := False\<rparr>) splash_desc = Inr s1"
    and s': "s' = event_loop c s1"
    by (auto simp: display_sdl2_run_def split: sum.splits)
  have "deinterlace s1 \<noteq> deint_force"
    using loadSplashscreen_deint [OF l] run.IH by simp
  with s' show ?case by (simp add: event_loop_deint)
next
  case (splash s splash_desc s')
  then show ?case using loadSplashscreen_deint by blast
next
  case (event s ev)
  then show ?case by (simp add: handle_event_deint)
next
  case (loop s)
  then show ?case by (simp add: event_loop_deint)
next
  case (getf s buffer s')
  then show ?case by (auto simp: display_sdl2_getf_def split: list.splits)
next
  case (putf s frame timeout_ns r s')
  then show ?case
    by (auto simp: display_sdl2_putf_def split: if_splits option.splits)
next
  case (request s desc)
  then show ?case by (simp add: reconfigure_request_def)
next
  case (reconfigure s desc r s')
  from reconfigure.hyps(2) have "s' = event_loop c (reconfigure_request s desc)"
    by (auto simp: display_sdl2_reconfigure_def Let_def split: sum.splits)
  with reconfigure.IH show ?case
    by (simp add: event_loop_deint reconfigure_request_def)
qed


lemma state_sdl2_new_init: "state_sdl2_new init_state = init_state"
  by (simp add: state_sdl2_new_def init_state_def)

lemma init_empty: "display_sdl2_init False True True init_state None = Init_state init_state"
  by (simp add: display_sdl2_init_def state_sdl2_new_init)

lemma init_d:
  "display_sdl2_init False True True init_state (Some ''d'') =
     Init_state (init_state\<lparr>deinterlace := deint_on\<rparr>)"
  by (simp add: display_sdl2_init_def state_sdl2_new_init init_option_def)

lemma init_fixed_size:
  "display_sdl2_init False True True init_state (Some ''fixed_size'') =
     Init_state (init_state\<lparr>fixed_size := True\<rparr>)"
  by (simp add: display_sdl2_init_def state_sdl2_new_init init_option_def starts_with_def)

lemma splash_started: "loadSplashscreen ug_headers_std init_state example_desc = Inr started"
  by (simp add: started_def loadSplashscreen_def reconfigure_real_window init_fields
      sdl_create_ok recreate_textures_ok display_sdl2_getf_def cleanup_frames_def
      push_new_buffer_def)

lemma splash_started_fixed:
  "loadSplashscreen ug_headers_std (init_state\<lparr>fixed_size := True\<rparr>) example_desc =
     Inr started_fixed"
  by (simp add: started_fixed_def loadSplashscreen_def reconfigure_real_window init_fields
      sdl_create_ok recreate_textures_ok display_sdl2_getf_def cleanup_frames_def
      push_new_buffer_def)

lemma reachable_started: "reachable ug_headers_std started"
  by (rule reachable.splash [OF reachable.init [OF init_empty] splash_started])

lemma reachable_started_fixed: "reachable ug_headers_std started_fixed"
  by (rule reachable.splash [OF reachable.init [OF init_fixed_size] splash_started_fixed])

text \<open>
  C9. In every state the display can reach, the control command \<^verbatim>\<open>"100"\<close> (the key
  \<^verbatim>\<open>'d'\<close>) changes the deinterlace policy and is answered with OK, and a second
  command, answered with OK as well, returns the policy to what it was; the two commands
  may come with one message event or with two.
\<close>

theorem deinterlace_toggle_round_trip:
  assumes "reachable c s"
  shows "deinterlace (process_message (process_message s ''100'') ''100'') = deinterlace s
     \<and> deinterlace (process_message s ''100'') \<noteq> deinterlace s
     \<and> responses (process_message s ''100'') = responses s @ [(RESPONSE_OK, None)]
     \<and> responses (process_message (process_message s ''100'') ''100'') =
         responses s @ [(RESPONSE_OK, None), (RESPONSE_OK, None)]
     \<and> handle_event c sdl_user_new_message_event (s\<lparr>messages := [''100'', ''100'']\<rparr>) =
         (process_message (process_message s ''100'') ''100'')\<lparr>messages := []\<rparr>
     \<and> handle_event c sdl_user_new_message_event
         ((handle_event c sdl_user_new_message_event (s\<lparr>messages := [''100'']\<rparr>))
            \<lparr>messages := [''100'']\<rparr>) =
         (process_message (process_message s ''100'') ''100'')\<lparr>messages := []\<rparr>"
proof -
  from assms have "deinterlace s \<noteq> deint_force" by (rule reachable_deint)
  then show ?thesis
    by (cases "deinterlace s") (simp_all add: process_message_100 handle_event_def)
qed

theorem deinterlace_toggle_round_trip_witness:
  "reachable ug_headers_std started_deinterlacing
   \<and> deinterlace started_deinterlacing = deint_on
   \<and> deinterlace (process_message started_deinterlacing ''100'') = deint_off
   \<and> deinterlace (process_message (process_message started_deinterlacing ''100'') ''100'')
       = deint_on"
proof -
  have s: "started_deinterlacing = init_state\<lparr>deinterlace := deint_on\<rparr>"
    by (simp add: started_deinterlacing_def init_d)
  have r: "reachable ug_headers_std started_deinterlacing"
    unfolding s by (rule reachable.init [OF init_d])
  have d: "deinterlace started_deinterlacing = deint_on" by (simp add: s)
  from deinterlace_toggle_round_trip [OF r] r d show ?thesis
    by (simp add: process_message_100)
qed


section \<open>The reconfiguration handshake\<close>

lemma process_key_statusD:
  "display_sdl2_process_key s key = (b, s1) \<Longrightarrow>
   reconfiguration_status s1 = reconfiguration_status s"
  by (auto simp: display_sdl2_process_key_def split: if_splits)

lemma process_message_status:
  "reconfiguration_status (process_message s text) = reconfiguration_status s"
proof (cases "take (length ''win-title '') text = ''win-title ''")
  case True
  then show ?thesis by (simp add: process_message_def)
next
  case nt: False
  show ?thesis
  proof (cases "sscanf_d text")
    case None
    with nt show ?thesis by (simp add: process_message_def)
  next
    case (Some key)
    obtain b s1 where k: "display_sdl2_process_key s key = (b, s1)"
      by (cases "display_sdl2_process_key s key")
    from process_key_statusD [OF k] nt Some k show ?thesis
      by (cases b) (simp_all add: process_message_def)
  qed
qed

lemma process_messages_status:
  "reconfiguration_status (process_messages ms s) = reconfiguration_status s"
  by (induction ms arbitrary: s) (simp_all add: process_message_status)

lemma display_frame_status:
  "reconfiguration_status (display_frame s frame) = reconfiguration_status s"
  by (simp add: display_frame_def split: option.split)

lemma handle_event_status:
  assumes "\<And>d. ev \<noteq> sdl_user_reconfigure_event d"
  shows "reconfiguration_status (handle_event c ev s) = reconfiguration_status s"
proof (cases ev)
  case (sdl_user_reconfigure_event desc)
  with assms [of desc] show ?thesis by blast
next
  case (SDL_KEYDOWN keysym)
  obtain b s1 where k:
    "display_sdl2_process_key s (translate_sdl_key_to_ug c keysym) = (b, s1)"
    by (cases "display_sdl2_process_key s (translate_sdl_key_to_ug c keysym)")
  from process_key_statusD [OF k] k SDL_KEYDOWN show ?thesis
    by (cases b) (simp_all add: handle_event_def Let_def)
qed (simp_all add: handle_event_def display_frame_status process_messages_status)

lemma event_loop_status:
  "(\<And>d. sdl_user_reconfigure_event d \<notin> set (sdl_events s)) \<Longrightarrow>
   reconfiguration_status (event_loop c s) = reconfiguration_status s"
proof (induction "sdl_events s" arbitrary: s)
  case Nil
  then show ?case by (simp add: event_loop_empty)
next
  case (Cons ev evs)
  show ?case
  proof (cases "should_exit_sdl s")
    case True
    then show ?thesis by (simp add: event_loop_stopped)
  next
    case False
    let ?s1 = "handle_event c ev (s\<lparr>sdl_events := evs\<rparr>)"
    from Cons.hyps(2) have ev: "sdl_events s = ev # evs" by simp
    from Cons.prems ev have ne: "\<And>d. ev \<noteq> sdl_user_reconfigure_event d"
      and ns: "\<And>d. sdl_user_reconfigure_event d \<notin> set evs" by auto
    have e1: "sdl_events ?s1 = evs" by (simp add: handle_event_events)
    have "reconfiguration_status (event_loop c ?s1) = reconfiguration_status ?s1"
      using Cons.hyps(1) [of ?s1] e1 ns by simp
    also have "\<dots> = reconfiguration_status s" by (simp add: handle_event_status [OF ne])
    finally show ?thesis by (simp add: event_loop_step [OF False ev])
  qed
qed

lemma events_update_same: "sdl_events s = X \<Longrightarrow> s\<lparr>sdl_events := X\<rparr> = s"
  by (cases s) simp

text \<open>
  C3, as the code has it (\<^verbatim>\<open>TRUE\<close> being \<open>1\<close> and \<^verbatim>\<open>FALSE\<close> being \<open>0\<close>). The
  requester posts the request and sets the status to \<open>- 1\<close>. With no other request and
  no sentinel queued, the render thread handles the events queued before the request, in
  the state \<open>s1\<close> it reaches the status is still \<open>- 1\<close> and the requester is still
  blocked; the render thread then writes the value \<open>r\<close> that
  \<^verbatim>\<open>display_sdl2_reconfigure_real\<close> returned, and the requester wakes and returns
  \<open>r\<close>. The status is \<open>1\<close> for success (the pool is rebuilt for the new descriptor)
  and \<open>0\<close> for failure (an SDL creation call failed); the render thread never writes a
  negative value.
\<close>

theorem reconfigure_handshake:
  assumes "\<not> should_exit_sdl s"
    and "sdl_user_new_frame_event None \<notin> set (sdl_events s)"
    and "\<forall>d. sdl_user_reconfigure_event d \<notin> set (sdl_events s)"
    and "TRUE c = 1" and "FALSE c = 0"
  shows "\<exists>s1 r s2.
       s1 = event_loop c (s\<lparr>reconfiguration_status := - 1\<rparr>)
     \<and> reconfigure_return s1 = Inl Blocked
     \<and> display_sdl2_reconfigure_real c s1 desc = (r, s2)
     \<and> handle_event c (sdl_user_reconfigure_event desc) s1 = s2\<lparr>reconfiguration_status := r\<rparr>
     \<and> display_sdl2_reconfigure c s desc = Inr (r, s2\<lparr>reconfiguration_status := r\<rparr>)
     \<and> (r = 1 \<and> length (free_frame_queue s2) = BUFFER_COUNT \<and> pool_matches desc s2
         \<or> r = 0 \<and> False \<in> set (sdl_results s1))"
proof -
  let ?s0 = "s\<lparr>reconfiguration_status := - 1\<rparr>"
  let ?s1 = "event_loop c ?s0"
  obtain r s2 where rr: "display_sdl2_reconfigure_real c ?s1 desc = (r, s2)"
    by (cases "display_sdl2_reconfigure_real c ?s1 desc")
  have n0: "\<not> should_exit_sdl ?s0" "sdl_user_new_frame_event None \<notin> set (sdl_events ?s0)"
    using assms(1,2) by simp_all
  from event_loop_no_sentinel [OF n0] have n1: "\<not> should_exit_sdl ?s1" "sdl_events ?s1 = []"
    by simp_all
  have st: "reconfiguration_status ?s1 = - 1"
    using event_loop_status [of ?s0 c] assms(3) by simp
  then have blocked: "reconfigure_return ?s1 = Inl Blocked" by (simp add: reconfigure_return_def)
  have h: "handle_event c (sdl_user_reconfigure_event desc) ?s1 = s2\<lparr>reconfiguration_status := r\<rparr>"
    using rr by (simp add: handle_event_def)
  have e2: "sdl_events s2 = []"
    using reconfigure_real_events [of c ?s1 desc] rr n1(2) by simp
  have out: "r = 1 \<and> length (free_frame_queue s2) = BUFFER_COUNT \<and> pool_matches desc s2
         \<or> r = 0 \<and> False \<in> set (sdl_results ?s1)"
  proof (cases "fixed_size ?s1 \<and> window ?s1 \<noteq> None")
    case True
    from reconfigure_real_outcome_fixed [OF rr True] show ?thesis by blast
  next
    case False
    from reconfigure_real_outcome_window [OF rr False] assms(4,5) show ?thesis by auto
  qed
  then have r0: "0 \<le> r" by auto
  have rq: "reconfigure_request s desc =
      ?s0\<lparr>sdl_events := sdl_events ?s0 @ [sdl_user_reconfigure_event desc]\<rparr>"
    by (simp add: reconfigure_request_def)
  have "event_loop c (reconfigure_request s desc) =
      event_loop c ((event_loop c (?s0\<lparr>sdl_events := sdl_events ?s0\<rparr>))
        \<lparr>sdl_events := [sdl_user_reconfigure_event desc]\<rparr>)"
    unfolding rq by (rule event_loop_append [OF n0])
  also have "?s0\<lparr>sdl_events := sdl_events ?s0\<rparr> = ?s0" by (rule events_update_same) simp
  also have "event_loop c (?s1\<lparr>sdl_events := [sdl_user_reconfigure_event desc]\<rparr>) =
      event_loop c (handle_event c (sdl_user_reconfigure_event desc)
        (?s1\<lparr>sdl_events := [sdl_user_reconfigure_event desc]\<rparr>\<lparr>sdl_events := []\<rparr>))"
    by (rule event_loop_step) (use n1 in simp_all)
  also have "?s1\<lparr>sdl_events := [sdl_user_reconfigure_event desc]\<rparr>\<lparr>sdl_events := []\<rparr> = ?s1"
    using events_update_same [OF n1(2)] by simp
  also have "event_loop c (handle_event c (sdl_user_reconfigure_event desc) ?s1) =
      s2\<lparr>reconfiguration_status := r\<rparr>"
    unfolding h by (rule event_loop_empty) (simp add: e2)
  finally have loop: "event_loop c (reconfigure_request s desc) = s2\<lparr>reconfiguration_status := r\<rparr>" .
  have whole: "display_sdl2_reconfigure c s desc = Inr (r, s2\<lparr>reconfiguration_status := r\<rparr>)"
    using r0 by (simp add: display_sdl2_reconfigure_def loop reconfigure_return_def)
  from blocked rr h whole out show ?thesis by blast
qed


theorem reconfigure_handshake_witness:
  "\<not> should_exit_sdl started \<and> sdl_events started = []
   \<and> TRUE ug_headers_std = 1 \<and> FALSE ug_headers_std = 0
   \<and> map_option fst (projr_opt
        (display_sdl2_reconfigure ug_headers_std started example_desc_720)) = Some 1"
proof -
  have h: "\<not> should_exit_sdl started"
    "sdl_user_new_frame_event None \<notin> set (sdl_events started)"
    "\<forall>d. sdl_user_reconfigure_event d \<notin> set (sdl_events started)"
    "TRUE ug_headers_std = 1" "FALSE ug_headers_std = 0"
    by (simp_all add: started_fields std_fields)
  have e: "event_loop ug_headers_std (started\<lparr>reconfiguration_status := - 1\<rparr>) =
      started\<lparr>reconfiguration_status := - 1\<rparr>"
    by (rule event_loop_empty) (simp add: started_fields)
  from reconfigure_handshake [OF h, of example_desc_720] obtain r s2 where
    w: "display_sdl2_reconfigure ug_headers_std started example_desc_720 =
          Inr (r, s2\<lparr>reconfiguration_status := r\<rparr>)"
    and o: "r = 1 \<and> length (free_frame_queue s2) = BUFFER_COUNT \<and> pool_matches example_desc_720 s2
         \<or> r = 0 \<and> False \<in> set (sdl_results
              (event_loop ug_headers_std (started\<lparr>reconfiguration_status := - 1\<rparr>)))"
    by blast
  from o have "r = 1" unfolding e by (simp add: started_more)
  with w h show ?thesis by (simp add: projr_opt_def started_fields)
qed

text \<open>
  C3 as it is stated fails. For a display with a fixed size and a window, a successful
  reconfiguration (the pool is rebuilt with the buffers \<open>2\<close> and \<open>3\<close>) writes and
  returns the status \<open>1\<close>, not \<open>0\<close>; one whose first texture cannot be created (the
  pool is left empty) writes and returns \<open>0\<close>, not a negative value.
\<close>

theorem reconfigure_status_counterexample:
  "map_option fst (projr_opt
      (display_sdl2_reconfigure ug_headers_std started_fixed example_desc_720)) = Some 1
   \<and> map_option (\<lambda>r. free_frame_queue (snd r)) (projr_opt
      (display_sdl2_reconfigure ug_headers_std started_fixed example_desc_720)) = Some [2, 3]
   \<and> map_option fst (projr_opt
      (display_sdl2_reconfigure ug_headers_std (started_fixed\<lparr>sdl_results := [False]\<rparr>)
         example_desc_720)) = Some 0
   \<and> map_option (\<lambda>r. free_frame_queue (snd r)) (projr_opt
      (display_sdl2_reconfigure ug_headers_std (started_fixed\<lparr>sdl_results := [False]\<rparr>)
         example_desc_720)) = Some []"
  by (simp add: display_sdl2_reconfigure_def reconfigure_request_def reconfigure_return_def
      event_loop_step [where ev = "sdl_user_reconfigure_event example_desc_720" and evs = "[]"]
      event_loop_empty handle_event_def reconfigure_real_fixed started_fixed_fields
      SDL_RenderSetLogicalSize_def recreate_textures_ok cleanup_frames_def push_new_buffer_def
      projr_opt_def recreate_textures_def sdl_create_def BUFFER_COUNT_def numeral_2_eq_2)


end
